theory Spec2Isabelle
  imports Complex_Main "HOL-Library.Multiset"
begin

section \<open>Data model (the TypeORM entities)\<close>

text \<open>
  The entities of \<^verbatim>\<open>order.entity.ts\<close>, \<^verbatim>\<open>order-item.entity.ts\<close> and
  \<^verbatim>\<open>product.entity.ts\<close>. Every entity calls its primary key \<^verbatim>\<open>id\<close>; the three keys
  are \<open>product_id\<close>, \<open>item_id\<close> and \<open>order_id\<close> here. An identifier is a uuid, held as
  a string; the texts the storage layer reads as the same uuid (upper or lower case, with or
  without hyphens) are one identifier here.
  A \<^verbatim>\<open>decimal(10, 2)\<close> column is an exact number of hundredths (an \<open>int\<close>), an integer
  column and a JavaScript integer are \<open>int\<close>, a date is its epoch time (\<open>int\<close>).
  Columns of \<^verbatim>\<open>Product\<close> that the order service never reads (description, imageUrl, sku,
  categoryId, the two dates) are left out.
\<close>

datatype OrderStatus = PENDING | CONFIRMED | SHIPPED | DELIVERED | CANCELLED

record Product =
  product_id :: string
  name :: string
  price :: int
  isAvailable :: bool
  stockQuantity :: int

text \<open>
  \<^verbatim>\<open>Partial<OrderItem>\<close> as \<^verbatim>\<open>createOrder\<close> builds it in its first loop has the four
  fields of \<open>OrderItemDraft\<close>; the persisted row adds the generated key and \<^verbatim>\<open>orderId\<close>.
\<close>

record OrderItemDraft =
  productId :: string
  quantity :: int
  unitPrice :: int
  totalPrice :: int

record OrderItem = OrderItemDraft +
  item_id :: string
  orderId :: string

text \<open>
  An \<open>Order\<close> is a row of the order table; \<open>OrderWithItems\<close> is the entity as
  \<^verbatim>\<open>getOrderById\<close> and the query builders load it, with the \<^verbatim>\<open>items\<close> relation joined.
  (The joined \<^verbatim>\<open>items.product\<close> and \<^verbatim>\<open>user\<close> objects are not modelled.)
\<close>

record Order =
  order_id :: string
  orderNumber :: string
  userId :: string
  status :: OrderStatus
  totalAmount :: int
  shippingCost :: int
  taxAmount :: int
  shippingAddress :: "string option"
  shippingCity :: "string option"
  shippingPostalCode :: "string option"
  shippingCountry :: "string option"
  order_notes :: "string option"
  createdAt :: int
  updatedAt :: int

record OrderWithItems = Order +
  items :: "OrderItem list"

text \<open>The request body of \<^verbatim>\<open>POST /api/v1/orders\<close> (\<^verbatim>\<open>CreateOrderRequest\<close>).\<close>

record RequestItem =
  req_productId :: string
  req_quantity :: int

record CreateOrderRequest =
  req_items :: "RequestItem list"
  req_shippingAddress :: "string option"
  req_shippingCity :: "string option"
  req_shippingPostalCode :: "string option"
  req_shippingCountry :: "string option"
  req_notes :: "string option"

text \<open>
  The storage layer behind the three repositories of \<^verbatim>\<open>OrderService\<close>: tables are lists
  of rows, in insertion order. The key columns are of PostgreSQL type \<^verbatim>\<open>uuid\<close> and the
  order route passes the request body on unvalidated, so a \<^verbatim>\<open>productId\<close> of a request
  may be text that is no uuid at all; \<open>is_uuid\<close> is the storage layer's verdict on a text
  (what PostgreSQL accepts as uuid input is not part of the repository, so it is a
  parameter of the model).
\<close>

record Database =
  products :: "Product list"
  orders :: "Order list"
  orderItems :: "OrderItem list"
  is_uuid :: "string \<Rightarrow> bool"

text \<open>
  What a call of \<^verbatim>\<open>createOrder\<close> takes from outside the program: the order number
  (\<^verbatim>\<open>ORD-${Date.now()}-${random}\<close>), the uuids the storage layer generates for the order
  and for its k-th item, and the clock.
\<close>

record CreateEnv =
  gen_orderNumber :: string
  gen_orderId :: string
  gen_itemId :: "nat \<Rightarrow> string"
  now :: int

text \<open>
  Every \<^verbatim>\<open>throw new Error(message)\<close> of the service, one constructor per message;
  \<open>QueryFailed\<close> is the \<^verbatim>\<open>QueryFailedError\<close> of the storage layer: an insert that
  repeats a primary key or a unique column, or a key compared with text that is no uuid
  (\<^verbatim>\<open>invalid input syntax for type uuid\<close>).
\<close>

datatype error =
    ProductNotFound string
  | ProductUnavailable string
  | InsufficientStock string int
  | RetrieveFailed
  | OrderNotFound
  | AlreadyCancelled
  | CannotCancelDelivered
  | QueryFailed

section \<open>Repository operations\<close>

text \<open>
  \<open>findProduct\<close> is the row of the product table with a given uuid as its key.
  \<open>findOneProduct\<close> is \<^verbatim>\<open>productRepo.findOne({ where: { id: item.productId } })\<close> as
  \<^verbatim>\<open>createOrder\<close> calls it, with the text of the request: the storage layer refuses the
  query when the text is no uuid (the call throws before \<^verbatim>\<open>if (!product)\<close> is reached),
  and looks the row up otherwise.
\<close>

definition findProduct :: "Database \<Rightarrow> string \<Rightarrow> Product option" where
  "findProduct db i = find (\<lambda>p. product_id p = i) (products db)"

definition findOneProduct :: "Database \<Rightarrow> string \<Rightarrow> error + Product option" where
  "findOneProduct db i = (if is_uuid db i then Inr (findProduct db i) else Inl QueryFailed)"

text \<open>
  \<^verbatim>\<open>productRepo.decrement\<close> and \<^verbatim>\<open>productRepo.increment\<close> (an unconditional
  \<^verbatim>\<open>UPDATE ... SET stockQuantity = stockQuantity - n WHERE id = ...\<close>: the column has no
  lower bound; \<^verbatim>\<open>createOrder\<close> reaches its decrements only with texts its first loop has
  looked up, \<^verbatim>\<open>cancelOrder\<close> its increments only with keys read from the tables), and
  \<^verbatim>\<open>getOrderById\<close>, which loads the order with its items.
\<close>

definition decrement :: "Database \<Rightarrow> string \<Rightarrow> int \<Rightarrow> Database" where
  "decrement db i n =
     db\<lparr>products := map (\<lambda>p. if product_id p = i
                                then p\<lparr>stockQuantity := stockQuantity p - n\<rparr> else p)
                         (products db)\<rparr>"

definition increment :: "Database \<Rightarrow> string \<Rightarrow> int \<Rightarrow> Database" where
  "increment db i n =
     db\<lparr>products := map (\<lambda>p. if product_id p = i
                                then p\<lparr>stockQuantity := stockQuantity p + n\<rparr> else p)
                         (products db)\<rparr>"

definition loadItems :: "Database \<Rightarrow> Order \<Rightarrow> OrderWithItems" where
  "loadItems db ord =
     Order.extend ord
       (OrderWithItems.fields (filter (\<lambda>i. orderId i = order_id ord) (orderItems db)))"

definition getOrderById :: "Database \<Rightarrow> string \<Rightarrow> OrderWithItems option" where
  "getOrderById db oid =
     (case find (\<lambda>ord. order_id ord = oid) (orders db) of
        None \<Rightarrow> None
      | Some ord \<Rightarrow> Some (loadItems db ord))"

section \<open>\<^verbatim>\<open>OrderService.createOrder\<close>\<close>

text \<open>
  The first loop of \<^verbatim>\<open>createOrder\<close> (validate products and calculate totals): it reads
  each product, throws at the first item that fails a check, and accumulates
  \<^verbatim>\<open>totalAmount\<close> (\<open>amount\<close>) and \<^verbatim>\<open>orderItems\<close> (\<open>drafts\<close>). It writes nothing.
\<close>

fun validateItems ::
  "Database \<Rightarrow> RequestItem list \<Rightarrow> int \<Rightarrow> OrderItemDraft list
     \<Rightarrow> error + (int \<times> OrderItemDraft list)" where
  "validateItems db [] amount drafts = Inr (amount, drafts)"
| "validateItems db (item # rest) amount drafts =
     (case findOneProduct db (req_productId item) of
        Inl e \<Rightarrow> Inl e
      | Inr None \<Rightarrow> Inl (ProductNotFound (req_productId item))
      | Inr (Some product) \<Rightarrow>
          if \<not> isAvailable product then Inl (ProductUnavailable (name product))
          else if stockQuantity product < req_quantity item
            then Inl (InsufficientStock (name product) (stockQuantity product))
          else
            (let itemTotal = price product * req_quantity item
             in validateItems db rest (amount + itemTotal)
                  (drafts @ [\<lparr>productId = product_id product,
                               quantity = req_quantity item,
                               unitPrice = price product,
                               totalPrice = itemTotal\<rparr>])))"

text \<open>
  \<^verbatim>\<open>orderRepo.save(order)\<close>: an insert. \<^verbatim>\<open>id\<close> is the primary key and
  \<^verbatim>\<open>orderNumber\<close> is declared \<^verbatim>\<open>unique: true\<close>, so the storage layer refuses a row that
  repeats either.
\<close>

definition saveOrder :: "Database \<Rightarrow> Order \<Rightarrow> error + Database" where
  "saveOrder db ord =
     (if list_ex (\<lambda>o'. order_id o' = order_id ord \<or> orderNumber o' = orderNumber ord) (orders db)
      then Inl QueryFailed
      else Inr (db\<lparr>orders := orders db @ [ord]\<rparr>))"

text \<open>The second loop of \<^verbatim>\<open>createOrder\<close> (update product stock).\<close>

fun decrementAll :: "Database \<Rightarrow> RequestItem list \<Rightarrow> Database" where
  "decrementAll db [] = db"
| "decrementAll db (item # rest) =
     decrementAll (decrement db (req_productId item) (req_quantity item)) rest"

text \<open>
  \<^verbatim>\<open>createOrder\<close> after its first loop: create and save the order, save the items with
  the saved order's id, decrement the stock, reload the order. Each repository call is
  awaited on its own; there is no transaction around them. (The keys generated for the
  items are taken as given: the service never looks an item up by its key.)
\<close>

definition commitOrder ::
  "CreateEnv \<Rightarrow> Database \<Rightarrow> string \<Rightarrow> CreateOrderRequest \<Rightarrow> int \<Rightarrow> OrderItemDraft list
     \<Rightarrow> (error + OrderWithItems) \<times> Database" where
  "commitOrder env db uid orderData amount drafts =
     (let ord = \<lparr>order_id = gen_orderId env,
                  orderNumber = gen_orderNumber env,
                  userId = uid,
                  status = PENDING,
                  totalAmount = amount,
                  shippingCost = 0,
                  taxAmount = 0,
                  shippingAddress = req_shippingAddress orderData,
                  shippingCity = req_shippingCity orderData,
                  shippingPostalCode = req_shippingPostalCode orderData,
                  shippingCountry = req_shippingCountry orderData,
                  order_notes = req_notes orderData,
                  createdAt = now env,
                  updatedAt = now env\<rparr>
      in case saveOrder db ord of
           Inl e \<Rightarrow> (Inl e, db)
         | Inr db1 \<Rightarrow>
            (let orderItemsWithOrderId =
                   map (\<lambda>(k, item). \<lparr>productId = productId item,
                                       quantity = quantity item,
                                       unitPrice = unitPrice item,
                                       totalPrice = totalPrice item,
                                       item_id = gen_itemId env k,
                                       orderId = order_id ord\<rparr>)
                       (enumerate 0 drafts);
                 db2 = db1\<lparr>orderItems := orderItems db1 @ orderItemsWithOrderId\<rparr>;
                 db3 = decrementAll db2 (req_items orderData)
             in case getOrderById db3 (order_id ord) of
                  None \<Rightarrow> (Inl RetrieveFailed, db3)
                | Some createdOrder \<Rightarrow> (Inr createdOrder, db3)))"

definition createOrder ::
  "CreateEnv \<Rightarrow> Database \<Rightarrow> string \<Rightarrow> CreateOrderRequest
     \<Rightarrow> (error + OrderWithItems) \<times> Database" where
  "createOrder env db uid orderData =
     (case validateItems db (req_items orderData) 0 [] of
        Inl e \<Rightarrow> (Inl e, db)
      | Inr (amount, drafts) \<Rightarrow> commitOrder env db uid orderData amount drafts)"

section \<open>\<^verbatim>\<open>updateOrderStatus\<close> and \<^verbatim>\<open>cancelOrder\<close>\<close>

text \<open>
  \<^verbatim>\<open>orderRepo.update({ id: orderId }, { status })\<close> writes the status, and the
  \<^verbatim>\<open>@UpdateDateColumn\<close>, of every row with that id; then the order is reloaded.
\<close>

definition updateOrderStatus ::
  "int \<Rightarrow> Database \<Rightarrow> string \<Rightarrow> OrderStatus \<Rightarrow> OrderWithItems option \<times> Database" where
  "updateOrderStatus clock db oid st =
     (let db' = db\<lparr>orders := map (\<lambda>ord. if order_id ord = oid
                                         then ord\<lparr>status := st, updatedAt := clock\<rparr> else ord)
                                  (orders db)\<rparr>
      in (getOrderById db' oid, db'))"

fun incrementAll :: "Database \<Rightarrow> OrderItem list \<Rightarrow> Database" where
  "incrementAll db [] = db"
| "incrementAll db (item # rest) =
     incrementAll (increment db (productId item) (quantity item)) rest"

definition cancelOrder ::
  "int \<Rightarrow> Database \<Rightarrow> string \<Rightarrow> (error + OrderWithItems option) \<times> Database" where
  "cancelOrder clock db oid =
     (case getOrderById db oid of
        None \<Rightarrow> (Inl OrderNotFound, db)
      | Some ord \<Rightarrow>
          if status ord = CANCELLED then (Inl AlreadyCancelled, db)
          else if status ord = DELIVERED then (Inl CannotCancelDelivered, db)
          else (let db1 = incrementAll db (items ord);
                    (r, db2) = updateOrderStatus clock db1 oid CANCELLED
                in (Inr r, db2)))"

section \<open>\<^verbatim>\<open>getUserOrders\<close> and \<^verbatim>\<open>getAllOrders\<close>\<close>

text \<open>
  The object both queries return; its \<^verbatim>\<open>orders\<close> field is \<open>page_orders\<close> here.
  \<^verbatim>\<open>ORDER BY createdAt DESC\<close> is a stable sort on the negated date (SQL leaves the order
  of equal dates open). \<^verbatim>\<open>skip\<close> and \<^verbatim>\<open>take\<close> count orders; \<^verbatim>\<open>total / limit\<close> is a
  division of reals. The queries are modelled for \<^verbatim>\<open>page\<close> and \<^verbatim>\<open>limit\<close> of at least 1
  (a negative offset or limit is refused by the storage layer); the defaults, page 1 and
  limit 10, are the caller's to fill in.
\<close>

record OrderPage =
  page_orders :: "OrderWithItems list"
  total :: int
  page :: int
  limit :: int
  totalPages :: int

definition orderBy_createdAt_DESC :: "Order list \<Rightarrow> Order list" where
  "orderBy_createdAt_DESC rows = sort_key (\<lambda>ord. - createdAt ord) rows"

definition getUserOrders ::
  "Database \<Rightarrow> string \<Rightarrow> int \<Rightarrow> int \<Rightarrow> OrderPage \<times> Database" where
  "getUserOrders db uid pg lmt =
     (let queryBuilder = orderBy_createdAt_DESC (filter (\<lambda>ord. userId ord = uid) (orders db));
          total_count = int (length queryBuilder);
          offset = (pg - 1) * lmt;
          found = map (loadItems db) (take (nat lmt) (drop (nat offset) queryBuilder));
          pages = \<lceil>real_of_int total_count / real_of_int lmt\<rceil>
      in (\<lparr>page_orders = found, total = total_count, page = pg, limit = lmt, totalPages = pages\<rparr>,
          db))"

definition getAllOrders :: "Database \<Rightarrow> int \<Rightarrow> int \<Rightarrow> OrderPage \<times> Database" where
  "getAllOrders db pg lmt =
     (let queryBuilder = orderBy_createdAt_DESC (orders db);
          total_count = int (length queryBuilder);
          offset = (pg - 1) * lmt;
          found = map (loadItems db) (take (nat lmt) (drop (nat offset) queryBuilder));
          pages = \<lceil>real_of_int total_count / real_of_int lmt\<rceil>
      in (\<lparr>page_orders = found, total = total_count, page = pg, limit = lmt, totalPages = pages\<rparr>,
          db))"

section \<open>Vocabulary of the properties\<close>

text \<open>The stock of a product, if the product exists.\<close>

definition stockOf :: "Database \<Rightarrow> string \<Rightarrow> int option" where
  "stockOf db i = map_option stockQuantity (findProduct db i)"

text \<open>The quantity a request asks of one product, over all its items.\<close>

definition requested :: "string \<Rightarrow> RequestItem list \<Rightarrow> int" where
  "requested i its = sum_list (map req_quantity (filter (\<lambda>it. req_productId it = i) its))"

text \<open>The quantity the items of an order record for one product.\<close>

definition recorded :: "string \<Rightarrow> OrderItem list \<Rightarrow> int" where
  "recorded i its = sum_list (map quantity (filter (\<lambda>it. productId it = i) its))"

text \<open>
  The constraints the schema puts on the tables: order ids are a primary key, and the
  \<^verbatim>\<open>orderId\<close> of an item is a foreign key into the order table.
\<close>

definition wf_db :: "Database \<Rightarrow> bool" where
  "wf_db db \<longleftrightarrow>
     distinct (map order_id (orders db)) \<and>
     (\<forall>i \<in> set (orderItems db). orderId i \<in> order_id ` set (orders db))"

text \<open>
  What \<^verbatim>\<open>getUserOrders\<close> and \<^verbatim>\<open>getAllOrders\<close> are to return, in the words of the
  specification: \<open>res\<close> is page \<open>pg\<close>, of at most \<open>lmt\<close> orders, of the list
  \<open>matching\<close> (the matching orders, newest first), with the count of all matching orders
  and the number of pages, and the database is untouched.
\<close>

definition page_of ::
  "Database \<Rightarrow> Order list \<Rightarrow> int \<Rightarrow> int \<Rightarrow> OrderPage \<times> Database \<Rightarrow> bool" where
  "page_of db matching pg lmt res \<longleftrightarrow>
     snd res = db
     \<and> total (fst res) = int (length matching)
     \<and> page (fst res) = pg \<and> limit (fst res) = lmt
     \<and> page_orders (fst res)
          = map (loadItems db) (take (nat lmt) (drop (nat ((pg - 1) * lmt)) matching))
     \<and> int (length (page_orders (fst res))) \<le> lmt
     \<and> sorted_wrt (\<lambda>a b. createdAt b \<le> createdAt a) (page_orders (fst res))
     \<and> totalPages (fst res) = \<lceil>real_of_int (total (fst res)) / real_of_int lmt\<rceil>
     \<and> total (fst res) \<le> totalPages (fst res) * lmt
     \<and> (totalPages (fst res) - 1) * lmt < total (fst res)
     \<and> (total (fst res) = 25 \<and> lmt = 10 \<longrightarrow>
          totalPages (fst res) = 3 \<and> (pg = 3 \<longrightarrow> length (page_orders (fst res)) = 5))"

text \<open>The calls of the service, and the database after a sequence of them.\<close>

datatype operation =
    CreateOrder CreateEnv string CreateOrderRequest
  | UpdateOrderStatus int string OrderStatus
  | CancelOrder int string
  | GetOrderById string
  | GetUserOrders string int int
  | GetAllOrders int int

fun step :: "Database \<Rightarrow> operation \<Rightarrow> Database" where
  "step db (CreateOrder env uid orderData) = snd (createOrder env db uid orderData)"
| "step db (UpdateOrderStatus clock oid st) = snd (updateOrderStatus clock db oid st)"
| "step db (CancelOrder clock oid) = snd (cancelOrder clock db oid)"
| "step db (GetOrderById oid) = db"
| "step db (GetUserOrders uid pg lmt) = snd (getUserOrders db uid pg lmt)"
| "step db (GetAllOrders pg lmt) = snd (getAllOrders db pg lmt)"

definition run :: "Database \<Rightarrow> operation list \<Rightarrow> Database" where
  "run db ops = foldl step db ops"

text \<open>
  Names for parts of the definitions above: the entity \<^verbatim>\<open>orderRepo.create\<close> builds, the
  item rows \<^verbatim>\<open>orderItemRepo.save\<close> inserts, the database after the three writes of
  \<^verbatim>\<open>createOrder\<close>, and the row update of \<^verbatim>\<open>orderRepo.update\<close>. The lemmas
  \<open>commitOrder_unfold\<close> and \<open>updateOrderStatus_snd\<close> relate them to the definitions.
\<close>

definition newOrder :: "CreateEnv \<Rightarrow> string \<Rightarrow> CreateOrderRequest \<Rightarrow> int \<Rightarrow> Order" where
  "newOrder env uid orderData amount =
     \<lparr>order_id = gen_orderId env,
      orderNumber = gen_orderNumber env,
      userId = uid,
      status = PENDING,
      totalAmount = amount,
      shippingCost = 0,
      taxAmount = 0,
      shippingAddress = req_shippingAddress orderData,
      shippingCity = req_shippingCity orderData,
      shippingPostalCode = req_shippingPostalCode orderData,
      shippingCountry = req_shippingCountry orderData,
      order_notes = req_notes orderData,
      createdAt = now env,
      updatedAt = now env\<rparr>"

definition newItems :: "CreateEnv \<Rightarrow> OrderItemDraft list \<Rightarrow> OrderItem list" where
  "newItems env drafts =
     map (\<lambda>(k, item). \<lparr>productId = productId item,
                         quantity = quantity item,
                         unitPrice = unitPrice item,
                         totalPrice = totalPrice item,
                         item_id = gen_itemId env k,
                         orderId = gen_orderId env\<rparr>)
         (enumerate 0 drafts)"

definition inserted ::
  "CreateEnv \<Rightarrow> Database \<Rightarrow> string \<Rightarrow> CreateOrderRequest \<Rightarrow> int \<Rightarrow> OrderItemDraft list
     \<Rightarrow> Database" where
  "inserted env db uid orderData amount drafts =
     decrementAll
       (db\<lparr>orders := orders db @ [newOrder env uid orderData amount],
           orderItems := orderItems db @ newItems env drafts\<rparr>)
       (req_items orderData)"

definition setStatus :: "int \<Rightarrow> string \<Rightarrow> OrderStatus \<Rightarrow> Order \<Rightarrow> Order" where
  "setStatus clock oid st ord =
     (if order_id ord = oid then ord\<lparr>status := st, updatedAt := clock\<rparr> else ord)"

text \<open>
  An item gets through the first loop of \<^verbatim>\<open>createOrder\<close>: its productId is a uuid, of
  a product that is available and has the stock.
\<close>

definition passes :: "Database \<Rightarrow> RequestItem \<Rightarrow> bool" where
  "passes db it \<longleftrightarrow>
     is_uuid db (req_productId it)
     \<and> (\<exists>p. findProduct db (req_productId it) = Some p \<and> isAvailable p
          \<and> req_quantity it \<le> stockQuantity p)"

section \<open>Example data\<close>

text \<open>
  A catalogue of three products (prices 10.00, 5.00 and 7.00; the third is not
  available), two calls' worth of generated values, and request builders. In the example
  data every text stands for a uuid, except \<open>''not-a-uuid''\<close>.
\<close>

definition widget :: Product where
  "widget = \<lparr>product_id = ''A'', name = ''Widget'', price = 1000, isAvailable = True,
             stockQuantity = 5\<rparr>"

definition gadget :: Product where
  "gadget = \<lparr>product_id = ''B'', name = ''Gadget'', price = 500, isAvailable = True,
             stockQuantity = 3\<rparr>"

definition retired :: Product where
  "retired = \<lparr>product_id = ''C'', name = ''Retired'', price = 700, isAvailable = False,
              stockQuantity = 9\<rparr>"

definition shop :: Database where
  "shop = \<lparr>products = [widget, gadget, retired], orders = [], orderItems = [],
            is_uuid = (\<lambda>t. t \<noteq> ''not-a-uuid'')\<rparr>"

definition env1 :: CreateEnv where
  "env1 = \<lparr>gen_orderNumber = ''ORD-1'', gen_orderId = ''o1'',
            gen_itemId = (\<lambda>k. replicate (Suc k) CHR ''i''), now = 100\<rparr>"

definition env2 :: CreateEnv where
  "env2 = \<lparr>gen_orderNumber = ''ORD-2'', gen_orderId = ''o2'',
            gen_itemId = (\<lambda>k. replicate (Suc k) CHR ''j''), now = 200\<rparr>"

definition ask :: "string \<Rightarrow> int \<Rightarrow> RequestItem" where
  "ask i n = \<lparr>req_productId = i, req_quantity = n\<rparr>"

definition request :: "RequestItem list \<Rightarrow> CreateOrderRequest" where
  "request its = \<lparr>req_items = its, req_shippingAddress = None, req_shippingCity = None,
                   req_shippingPostalCode = None, req_shippingCountry = None,
                   req_notes = None\<rparr>"

text \<open>The scenario of the specification: two of product A and one of product B.\<close>

definition shop1 :: Database where
  "shop1 = snd (createOrder env1 shop ''u1'' (request [ask ''A'' 2, ask ''B'' 1]))"

definition shop1_delivered :: Database where
  "shop1_delivered = snd (updateOrderStatus 150 shop1 ''o1'' DELIVERED)"

text \<open>Twenty-five orders of one user, created at times 0 to 24.\<close>

definition orders25 :: "Order list" where
  "orders25 = map (\<lambda>k. \<lparr>order_id = replicate (Suc k) CHR ''o'',
                         orderNumber = replicate (Suc k) CHR ''n'',
                         userId = ''u1'', status = PENDING, totalAmount = 0,
                         shippingCost = 0, taxAmount = 0, shippingAddress = None,
                         shippingCity = None, shippingPostalCode = None,
                         shippingCountry = None, order_notes = None,
                         createdAt = int k, updatedAt = int k\<rparr>) [0..<25]"

definition db25 :: Database where
  "db25 = \<lparr>products = [], orders = orders25, orderItems = [],
            is_uuid = (\<lambda>t. t \<noteq> ''not-a-uuid'')\<rparr>"

section \<open>Basic facts\<close>

lemma find_map_same:
  assumes "\<And>x. P (f x) = P x"
  shows "find P (map f xs) = map_option f (find P xs)"
  using assms by (induction xs) auto

lemma stockOf_decrement:
  "stockOf (decrement db i n) j =
     (if i = j then map_option (\<lambda>s. s - n) (stockOf db j) else stockOf db j)"
proof -
  let ?f = "\<lambda>p. if product_id p = i then p\<lparr>stockQuantity := stockQuantity p - n\<rparr> else p"
  have "find (\<lambda>p. product_id p = j) (map ?f (products db))
          = map_option ?f (find (\<lambda>p. product_id p = j) (products db))"
    by (rule find_map_same) simp
  then show ?thesis
    by (cases "find (\<lambda>p. product_id p = j) (products db)")
       (auto simp: stockOf_def findProduct_def decrement_def dest: find_Some_iff[THEN iffD1])
qed

lemma stockOf_increment:
  "stockOf (increment db i n) j =
     (if i = j then map_option (\<lambda>s. s + n) (stockOf db j) else stockOf db j)"
proof -
  let ?f = "\<lambda>p. if product_id p = i then p\<lparr>stockQuantity := stockQuantity p + n\<rparr> else p"
  have "find (\<lambda>p. product_id p = j) (map ?f (products db))
          = map_option ?f (find (\<lambda>p. product_id p = j) (products db))"
    by (rule find_map_same) simp
  then show ?thesis
    by (cases "find (\<lambda>p. product_id p = j) (products db)")
       (auto simp: stockOf_def findProduct_def increment_def dest: find_Some_iff[THEN iffD1])
qed

lemma stockOf_decrementAll:
  "stockOf (decrementAll db its) j = map_option (\<lambda>s. s - requested j its) (stockOf db j)"
proof (induction its arbitrary: db)
  case Nil
  show ?case by (simp add: requested_def option.map_ident)
next
  case (Cons it its)
  show ?case
    by (cases "stockOf db j") (simp_all add: Cons.IH stockOf_decrement requested_def)
qed

lemma stockOf_incrementAll:
  "stockOf (incrementAll db its) j = map_option (\<lambda>s. s + recorded j its) (stockOf db j)"
proof (induction its arbitrary: db)
  case Nil
  show ?case by (simp add: recorded_def option.map_ident)
next
  case (Cons it its)
  show ?case
    by (cases "stockOf db j") (simp_all add: Cons.IH stockOf_increment recorded_def)
qed

lemma decrementAll_orders [simp]: "orders (decrementAll db its) = orders db"
  by (induction its arbitrary: db) (simp_all add: decrement_def)

lemma decrementAll_orderItems [simp]: "orderItems (decrementAll db its) = orderItems db"
  by (induction its arbitrary: db) (simp_all add: decrement_def)

lemma incrementAll_orders [simp]: "orders (incrementAll db its) = orders db"
  by (induction its arbitrary: db) (simp_all add: increment_def)

lemma incrementAll_orderItems [simp]: "orderItems (incrementAll db its) = orderItems db"
  by (induction its arbitrary: db) (simp_all add: increment_def)

lemma find_append_None:
  "find P xs = None \<Longrightarrow> find P (xs @ ys) = find P ys"
  by (induction xs) (auto split: if_splits)

lemma find_None_list_ex: "find P xs = None \<longleftrightarrow> \<not> list_ex P xs"
  by (induction xs) auto

lemma commitOrder_unfold:
  "commitOrder env db uid orderData amount drafts =
     (if list_ex (\<lambda>o'. order_id o' = gen_orderId env \<or> orderNumber o' = gen_orderNumber env)
           (orders db)
      then (Inl QueryFailed, db)
      else (Inr (loadItems (inserted env db uid orderData amount drafts)
                   (newOrder env uid orderData amount)),
            inserted env db uid orderData amount drafts))"
proof (cases "list_ex (\<lambda>o'. order_id o' = gen_orderId env \<or> orderNumber o' = gen_orderNumber env)
           (orders db)")
  case True
  then show ?thesis
    by (simp add: commitOrder_def saveOrder_def)
next
  case False
  then have "\<not> list_ex (\<lambda>o'. order_id o' = gen_orderId env) (orders db)"
    by (auto simp: list_ex_iff)
  then have "find (\<lambda>o'. order_id o' = gen_orderId env) (orders db) = None"
    by (simp add: find_None_list_ex)
  then have "find (\<lambda>o'. order_id o' = gen_orderId env)
               (orders db @ [newOrder env uid orderData amount])
             = Some (newOrder env uid orderData amount)"
    by (simp add: find_append_None newOrder_def)
  then have "getOrderById (inserted env db uid orderData amount drafts) (gen_orderId env)
             = Some (loadItems (inserted env db uid orderData amount drafts)
                      (newOrder env uid orderData amount))"
    by (simp add: getOrderById_def inserted_def)
  with False show ?thesis
    by (simp add: commitOrder_def saveOrder_def Let_def inserted_def newOrder_def newItems_def)
qed

section \<open>Facts about \<^verbatim>\<open>createOrder\<close>\<close>

lemma findProduct_id: "findProduct db i = Some p \<Longrightarrow> product_id p = i"
  by (auto simp: findProduct_def find_Some_iff)

lemma findOneProduct_uuid: "is_uuid db i \<Longrightarrow> findOneProduct db i = Inr (findProduct db i)"
  by (simp add: findOneProduct_def)

lemma findOneProduct_Inr:
  "findOneProduct db i = Inr r \<longleftrightarrow> is_uuid db i \<and> r = findProduct db i"
  by (auto simp: findOneProduct_def)

lemma findOneProduct_Inl: "findOneProduct db i = Inl e \<longleftrightarrow> \<not> is_uuid db i \<and> e = QueryFailed"
  by (auto simp: findOneProduct_def)

text \<open>What the first loop returns when every item passes.\<close>

lemma validateItems_Inr:
  assumes "validateItems db its a d = Inr (a', d')"
  shows "\<exists>new. d' = d @ new \<and> a' = a + sum_list (map totalPrice new)
           \<and> map productId new = map req_productId its
           \<and> map quantity new = map req_quantity its
           \<and> (\<forall>x \<in> set new. totalPrice x = quantity x * unitPrice x
                 \<and> (\<exists>p. findProduct db (productId x) = Some p \<and> unitPrice x = price p
                        \<and> isAvailable p \<and> quantity x \<le> stockQuantity p))"
  using assms
proof (induction its arbitrary: a d)
  case Nil
  then show ?case by simp
next
  case (Cons it its)
  from Cons.prems have u: "is_uuid db (req_productId it)"
    by (cases "is_uuid db (req_productId it)") (simp_all add: findOneProduct_def)
  from Cons.prems u obtain p where p: "findProduct db (req_productId it) = Some p"
    by (cases "findProduct db (req_productId it)") (auto simp: findOneProduct_uuid)
  from Cons.prems u p have av: "isAvailable p" and st: "req_quantity it \<le> stockQuantity p"
    by (auto simp: findOneProduct_uuid split: if_splits)
  let ?x = "\<lparr>productId = product_id p, quantity = req_quantity it,
             unitPrice = price p, totalPrice = price p * req_quantity it\<rparr>"
  from Cons.prems u p av st
  have "validateItems db its (a + price p * req_quantity it) (d @ [?x]) = Inr (a', d')"
    by (simp add: Let_def findOneProduct_uuid)
  from Cons.IH[OF this] obtain new where new:
    "d' = (d @ [?x]) @ new" "a' = a + price p * req_quantity it + sum_list (map totalPrice new)"
    "map productId new = map req_productId its" "map quantity new = map req_quantity its"
    "\<forall>x \<in> set new. totalPrice x = quantity x * unitPrice x
        \<and> (\<exists>p. findProduct db (productId x) = Some p \<and> unitPrice x = price p
               \<and> isAvailable p \<and> quantity x \<le> stockQuantity p)"
    by blast
  have pid: "product_id p = req_productId it" using p by (rule findProduct_id)
  show ?case
  proof (intro exI[of _ "?x # new"] conjI)
    show "d' = d @ ?x # new" using new(1) by simp
    show "a' = a + sum_list (map totalPrice (?x # new))" using new(2) by simp
    show "map productId (?x # new) = map req_productId (it # its)" using new(3) pid by simp
    show "map quantity (?x # new) = map req_quantity (it # its)" using new(4) by simp
    show "\<forall>x \<in> set (?x # new). totalPrice x = quantity x * unitPrice x
        \<and> (\<exists>p. findProduct db (productId x) = Some p \<and> unitPrice x = price p
               \<and> isAvailable p \<and> quantity x \<le> stockQuantity p)"
      using new(5) p av st pid by (auto simp: mult.commute)
  qed
qed

text \<open>The first loop stops at the first item that fails a check.\<close>


lemma validateItems_append_pass:
  assumes "\<forall>x \<in> set pre. passes db x"
  shows "\<exists>a' d'. validateItems db (pre @ rest) a d = validateItems db rest a' d'"
  using assms
proof (induction pre arbitrary: a d)
  case Nil
  show ?case by auto
next
  case (Cons x pre)
  from Cons.prems obtain p where "is_uuid db (req_productId x)"
      "findProduct db (req_productId x) = Some p" "isAvailable p"
      "req_quantity x \<le> stockQuantity p"
    by (auto simp: passes_def)
  moreover from Cons.prems have "\<forall>x \<in> set pre. passes db x" by simp
  ultimately show ?case using Cons.IH by (simp add: Let_def findOneProduct_uuid)
qed

lemma validateItems_all_pass:
  assumes "\<forall>x \<in> set its. passes db x"
  shows "\<exists>a' d'. validateItems db its a d = Inr (a', d')"
  using validateItems_append_pass[OF assms, of "[]" a d] by simp

lemma validateItems_Inl_kind:
  assumes "validateItems db its a d = Inl e"
    and "\<forall>x \<in> set its. is_uuid db (req_productId x)"
  shows "(\<exists>i. e = ProductNotFound i) \<or> (\<exists>n. e = ProductUnavailable n)
           \<or> (\<exists>n k. e = InsufficientStock n k)"
  using assms
  by (induction its arbitrary: a d)
     (auto simp: Let_def findOneProduct_uuid split: option.splits if_splits)

lemma validateItems_Inl_cases:
  assumes "validateItems db its a d = Inl e"
  shows "e = QueryFailed \<or> (\<exists>i. e = ProductNotFound i) \<or> (\<exists>n. e = ProductUnavailable n)
           \<or> (\<exists>n k. e = InsufficientStock n k)"
  using assms
  by (induction its arbitrary: a d)
     (auto simp: Let_def findOneProduct_def split: option.splits if_splits)

lemma validateItems_some_fails:
  assumes "\<exists>x \<in> set its. \<not> passes db x"
  shows "\<exists>e. validateItems db its a d = Inl e"
  using assms
proof (induction its arbitrary: a d)
  case Nil
  then show ?case by simp
next
  case (Cons x its)
  show ?case
  proof (cases "passes db x")
    case True
    with Cons.prems have "\<exists>x \<in> set its. \<not> passes db x" by auto
    from Cons.IH[OF this] True show ?thesis
      by (auto simp: passes_def Let_def findOneProduct_uuid)
  next
    case False
    then show ?thesis
      by (cases "findProduct db (req_productId x)")
         (auto simp: passes_def findOneProduct_def)
  qed
qed

lemma createOrder_Inl_validation:
  assumes "validateItems db (req_items orderData) 0 [] = Inl e"
  shows "createOrder env db uid orderData = (Inl e, db)"
  using assms by (simp add: createOrder_def)

lemma createOrder_unfold_Inr:
  assumes "validateItems db (req_items orderData) 0 [] = Inr (a, d)"
  shows "createOrder env db uid orderData = commitOrder env db uid orderData a d"
  using assms by (simp add: createOrder_def)

lemma createOrder_Inr:
  assumes "createOrder env db uid orderData = (Inr ord, db')"
  shows "\<exists>a d. validateItems db (req_items orderData) 0 [] = Inr (a, d)
           \<and> \<not> list_ex (\<lambda>o'. order_id o' = gen_orderId env
                               \<or> orderNumber o' = gen_orderNumber env) (orders db)
           \<and> db' = inserted env db uid orderData a d
           \<and> ord = loadItems db' (newOrder env uid orderData a)"
proof (cases "validateItems db (req_items orderData) 0 []")
  case (Inl e)
  with assms show ?thesis by (simp add: createOrder_def)
next
  case (Inr r)
  obtain a d where r: "r = (a, d)" by (cases r)
  with Inr assms have "commitOrder env db uid orderData a d = (Inr ord, db')"
    by (simp add: createOrder_def)
  then show ?thesis using Inr r
    by (auto simp: commitOrder_unfold split: if_splits)
qed

lemma createOrder_validation_error_only_from_loop:
  assumes "createOrder env db uid orderData = (Inl e, db')"
    and "(\<exists>i. e = ProductNotFound i) \<or> (\<exists>n. e = ProductUnavailable n)
           \<or> (\<exists>n k. e = InsufficientStock n k)"
  shows "db' = db"
proof (cases "validateItems db (req_items orderData) 0 []")
  case (Inl e')
  with assms show ?thesis by (simp add: createOrder_def)
next
  case (Inr r)
  obtain a d where r: "r = (a, d)" by (cases r)
  with Inr assms(1) have "commitOrder env db uid orderData a d = (Inl e, db')"
    by (simp add: createOrder_def)
  then show ?thesis using assms(2)
    by (auto simp: commitOrder_unfold split: if_splits)
qed

lemma stockOf_inserted:
  "stockOf (inserted env db uid orderData a d) j
     = map_option (\<lambda>s. s - requested j (req_items orderData)) (stockOf db j)"
  by (simp add: inserted_def stockOf_decrementAll) (simp add: stockOf_def findProduct_def)


lemma newItems_mem:
  assumes "x \<in> set (newItems env d)"
  shows "orderId x = gen_orderId env \<and>
         (\<exists>y \<in> set d. productId x = productId y \<and> quantity x = quantity y
             \<and> unitPrice x = unitPrice y \<and> totalPrice x = totalPrice y)"
proof -
  from assms obtain k y where "(k, y) \<in> set (enumerate 0 d)"
    and x: "x = \<lparr>productId = productId y, quantity = quantity y, unitPrice = unitPrice y,
                 totalPrice = totalPrice y, item_id = gen_itemId env k,
                 orderId = gen_orderId env\<rparr>"
    by (auto simp: newItems_def)
  then have "y \<in> set d" by (auto simp: in_set_enumerate_eq)
  with x show ?thesis by auto
qed


lemma filter_newItems_other:
  "X \<noteq> gen_orderId env \<Longrightarrow> filter (\<lambda>i. orderId i = X) (newItems env d) = []"
  by (rule filter_False) (auto dest: newItems_mem)

lemma inserted_orders:
  "orders (inserted env db uid orderData a d) = orders db @ [newOrder env uid orderData a]"
  by (simp add: inserted_def)

lemma inserted_orderItems:
  "orderItems (inserted env db uid orderData a d) = orderItems db @ newItems env d"
  by (simp add: inserted_def)

lemma newOrder_simps:
  "order_id (newOrder env uid orderData a) = gen_orderId env"
  "totalAmount (newOrder env uid orderData a) = a"
  "status (newOrder env uid orderData a) = PENDING"
  by (simp_all add: newOrder_def)

lemma loadItems_fields:
  "order_id (loadItems db r) = order_id r"
  "totalAmount (loadItems db r) = totalAmount r"
  "status (loadItems db r) = status r"
  "items (loadItems db r) = filter (\<lambda>i. orderId i = order_id r) (orderItems db)"
  by (simp_all add: loadItems_def Order.defs OrderWithItems.defs)




section \<open>Facts about \<^verbatim>\<open>updateOrderStatus\<close>, \<^verbatim>\<open>cancelOrder\<close> and sequences of calls\<close>

lemma setStatus_fields:
  "order_id (setStatus clock oid st r) = order_id r"
  "totalAmount (setStatus clock oid st r) = totalAmount r"
  by (simp_all add: setStatus_def)

lemma updateOrderStatus_snd:
  "snd (updateOrderStatus clock db oid st) = db\<lparr>orders := map (setStatus clock oid st) (orders db)\<rparr>"
  by (simp add: updateOrderStatus_def Let_def setStatus_def[abs_def])

lemma map_order_id_setStatus:
  "map order_id (map (setStatus clock oid st) rows) = map order_id rows"
  by (simp add: setStatus_fields)

lemma updateOrderStatus_wf:
  assumes "wf_db db" shows "wf_db (snd (updateOrderStatus clock db oid st))"
proof -
  have "order_id ` set (map (setStatus clock oid st) (orders db)) = order_id ` set (orders db)"
    using map_order_id_setStatus[of clock oid st "orders db"]
    by (metis list.set_map)
  with assms show ?thesis
    by (simp add: wf_db_def updateOrderStatus_snd map_order_id_setStatus del: map_map set_map)
qed

lemma updateOrderStatus_find:
  "find (\<lambda>o'. order_id o' = X) (orders (snd (updateOrderStatus clock db oid st)))
     = map_option (setStatus clock oid st) (find (\<lambda>o'. order_id o' = X) (orders db))"
  by (simp add: updateOrderStatus_snd find_map_same setStatus_fields)

lemma updateOrderStatus_orderItems:
  "orderItems (snd (updateOrderStatus clock db oid st)) = orderItems db"
  by (simp add: updateOrderStatus_snd)

lemma updateOrderStatus_products:
  "products (snd (updateOrderStatus clock db oid st)) = products db"
  by (simp add: updateOrderStatus_snd)

lemma incrementAll_wf: "wf_db (incrementAll db its) = wf_db db"
  by (simp add: wf_db_def)

lemma cancelOrder_snd:
  "snd (cancelOrder clock db oid) = db \<or>
   (\<exists>ord. getOrderById db oid = Some ord \<and> status ord \<noteq> CANCELLED \<and> status ord \<noteq> DELIVERED \<and>
      snd (cancelOrder clock db oid)
        = snd (updateOrderStatus clock (incrementAll db (items ord)) oid CANCELLED))"
  by (auto simp: cancelOrder_def Let_def split_def split: option.splits)

lemma createOrder_snd:
  "snd (createOrder env db uid orderData) = db \<or>
   (\<exists>a d. \<not> list_ex (\<lambda>o'. order_id o' = gen_orderId env
                               \<or> orderNumber o' = gen_orderNumber env) (orders db)
      \<and> snd (createOrder env db uid orderData) = inserted env db uid orderData a d)"
  by (auto simp: createOrder_def commitOrder_unfold split: sum.splits)

lemma inserted_wf:
  assumes "wf_db db"
    and "\<not> list_ex (\<lambda>o'. order_id o' = gen_orderId env
                               \<or> orderNumber o' = gen_orderNumber env) (orders db)"
  shows "wf_db (inserted env db uid orderData a d)"
proof -
  from assms(2) have "gen_orderId env \<notin> order_id ` set (orders db)"
    by (auto simp: list_ex_iff)
  with assms(1) show ?thesis
    by (auto simp: wf_db_def inserted_orders inserted_orderItems newOrder_simps
             dest: newItems_mem)
qed

lemma find_append_Some: "find P xs = Some r \<Longrightarrow> find P (xs @ ys) = Some r"
  by (induction xs) (auto split: if_splits)

lemma inserted_find:
  assumes "find (\<lambda>o'. order_id o' = X) (orders db) = Some r"
  shows "find (\<lambda>o'. order_id o' = X) (orders (inserted env db uid orderData a d)) = Some r"
  using assms by (simp add: inserted_orders find_append_Some)

lemma find_Some_mem: "find P xs = Some r \<Longrightarrow> r \<in> set xs \<and> P r"
  by (induction xs) (auto split: if_splits)

lemma inserted_items_of:
  assumes "find (\<lambda>o'. order_id o' = X) (orders db) = Some r"
    and "\<not> list_ex (\<lambda>o'. order_id o' = gen_orderId env
                               \<or> orderNumber o' = gen_orderNumber env) (orders db)"
  shows "filter (\<lambda>i. orderId i = X) (orderItems (inserted env db uid orderData a d))
           = filter (\<lambda>i. orderId i = X) (orderItems db)"
proof -
  from find_Some_mem[OF assms(1)] assms(2) have "X \<noteq> gen_orderId env"
    by (auto simp: list_ex_iff)
  then show ?thesis by (simp add: inserted_orderItems filter_newItems_other)
qed




lemma createOrder_wf:
  assumes "wf_db db" shows "wf_db (snd (createOrder env db uid orderData))"
  using createOrder_snd[of env db uid orderData] assms inserted_wf[OF assms]
  by auto


lemma requested_distinct:
  assumes "distinct (map req_productId its)" and "it \<in> set its"
  shows "requested (req_productId it) its = req_quantity it"
  using assms
proof (induction its)
  case Nil
  then show ?case by simp
next
  case (Cons x its)
  show ?case
  proof (cases "it = x")
    case True
    from Cons.prems(1) have "req_productId x \<notin> req_productId ` set its" by simp
    then have "\<forall>y \<in> set its. req_productId y \<noteq> req_productId x" by (metis imageI)
    then have "filter (\<lambda>y. req_productId y = req_productId x) its = []"
      by (simp add: filter_empty_conv)
    with True show ?thesis by (simp add: requested_def)
  next
    case False
    with Cons.prems have "it \<in> set its" "req_productId x \<noteq> req_productId it" by auto
    with Cons.IH Cons.prems(1) show ?thesis by (simp add: requested_def)
  qed
qed

lemma requested_unreferenced:
  "j \<notin> req_productId ` set its \<Longrightarrow> requested j its = 0"
proof -
  assume "j \<notin> req_productId ` set its"
  then have "filter (\<lambda>it. req_productId it = j) its = []"
    by (auto simp: filter_empty_conv)
  then show ?thesis by (simp add: requested_def)
qed

lemma recorded_distinct:
  assumes "distinct (map productId its)" and "it \<in> set its"
  shows "recorded (productId it) its = quantity it"
  using assms
proof (induction its)
  case Nil
  then show ?case by simp
next
  case (Cons x its)
  show ?case
  proof (cases "it = x")
    case True
    from Cons.prems(1) have "productId x \<notin> productId ` set its" by simp
    then have "\<forall>y \<in> set its. productId y \<noteq> productId x" by (metis imageI)
    then have "filter (\<lambda>y. productId y = productId x) its = []"
      by (simp add: filter_empty_conv)
    with True show ?thesis by (simp add: recorded_def)
  next
    case False
    with Cons.prems have "it \<in> set its" "productId x \<noteq> productId it" by auto
    with Cons.IH Cons.prems(1) show ?thesis by (simp add: recorded_def)
  qed
qed

lemma recorded_unreferenced:
  "j \<notin> productId ` set its \<Longrightarrow> recorded j its = 0"
proof -
  assume "j \<notin> productId ` set its"
  then have "filter (\<lambda>it. productId it = j) its = []"
    by (auto simp: filter_empty_conv)
  then show ?thesis by (simp add: recorded_def)
qed

lemma stockOf_updateOrderStatus:
  "stockOf (snd (updateOrderStatus clock db oid st)) j = stockOf db j"
  by (simp add: stockOf_def findProduct_def updateOrderStatus_products)

lemma updateOrderStatus_fst:
  "fst (updateOrderStatus clock db oid st)
     = getOrderById (snd (updateOrderStatus clock db oid st)) oid"
  by (simp add: updateOrderStatus_def Let_def)

lemma updateOrderStatus_existing:
  assumes "getOrderById db oid = Some ord"
  shows "\<exists>ord'. fst (updateOrderStatus clock db oid st) = Some ord' \<and> status ord' = st
           \<and> items ord' = items ord \<and> order_id ord' = oid
           \<and> totalAmount ord' = totalAmount ord"
proof -
  from assms obtain r where r: "find (\<lambda>o'. order_id o' = oid) (orders db) = Some r"
    and ord: "ord = loadItems db r"
    by (auto simp: getOrderById_def split: option.splits)
  from find_Some_mem[OF r] have rid: "order_id r = oid" by simp
  let ?db' = "snd (updateOrderStatus clock db oid st)"
  have "find (\<lambda>o'. order_id o' = oid) (orders ?db') = Some (setStatus clock oid st r)"
    by (simp add: updateOrderStatus_find r)
  then have "getOrderById ?db' oid = Some (loadItems ?db' (setStatus clock oid st r))"
    by (simp add: getOrderById_def)
  moreover have "status (setStatus clock oid st r) = st" using rid by (simp add: setStatus_def)
  ultimately show ?thesis
    using rid ord
    by (simp add: updateOrderStatus_fst loadItems_fields setStatus_fields
          updateOrderStatus_orderItems)
qed

lemma getOrderById_incrementAll:
  "getOrderById (incrementAll db its) oid = getOrderById db oid"
  by (simp add: getOrderById_def loadItems_def split: option.splits)

text \<open>A successful cancellation, in full.\<close>

lemma cancelOrder_success:
  assumes "getOrderById db oid = Some ord"
    and "status ord \<noteq> DELIVERED" and "status ord \<noteq> CANCELLED"
  shows "\<exists>ord'. cancelOrder clock db oid
            = (Inr (Some ord'), snd (updateOrderStatus clock (incrementAll db (items ord)) oid CANCELLED))
          \<and> status ord' = CANCELLED \<and> items ord' = items ord
          \<and> getOrderById (snd (cancelOrder clock db oid)) oid = Some ord'"
proof -
  let ?db1 = "incrementAll db (items ord)"
  have "getOrderById ?db1 oid = Some ord"
    using assms(1) by (simp add: getOrderById_incrementAll)
  from updateOrderStatus_existing[OF this, of clock CANCELLED] obtain ord' where
    f: "fst (updateOrderStatus clock ?db1 oid CANCELLED) = Some ord'" and
    s: "status ord' = CANCELLED" and i: "items ord' = items ord"
    by blast
  have c: "cancelOrder clock db oid
        = (Inr (fst (updateOrderStatus clock ?db1 oid CANCELLED)),
           snd (updateOrderStatus clock ?db1 oid CANCELLED))"
    using assms by (simp add: cancelOrder_def Let_def split_def)
  from f have "getOrderById (snd (updateOrderStatus clock ?db1 oid CANCELLED)) oid = Some ord'"
    by (simp add: updateOrderStatus_fst)
  with c f s i show ?thesis by simp
qed

lemma cancelOrder_stock:
  assumes "getOrderById db oid = Some ord"
    and "status ord \<noteq> DELIVERED" and "status ord \<noteq> CANCELLED"
  shows "stockOf (snd (cancelOrder clock db oid)) j
           = map_option (\<lambda>s. s + recorded j (items ord)) (stockOf db j)"
proof -
  from cancelOrder_success[OF assms, of clock]
  have "snd (cancelOrder clock db oid)
          = snd (updateOrderStatus clock (incrementAll db (items ord)) oid CANCELLED)"
    by auto
  then show ?thesis by (simp add: stockOf_updateOrderStatus stockOf_incrementAll)
qed

lemma cancelOrder_Inr:
  assumes "cancelOrder clock db oid = (Inr r, db1)"
  shows "\<exists>ord. getOrderById db oid = Some ord \<and> status ord \<noteq> DELIVERED
           \<and> status ord \<noteq> CANCELLED"
  using assms by (auto simp: cancelOrder_def split: option.splits if_splits)


lemma validateItems_products_exist:
  assumes "validateItems db its 0 [] = Inr (a, d)" and "it \<in> set its"
  shows "\<exists>s. stockOf db (req_productId it) = Some s"
proof -
  from validateItems_Inr[OF assms(1)] have
    m: "map productId d = map req_productId its" and
    e: "\<forall>x \<in> set d. \<exists>p. findProduct db (productId x) = Some p"
    by fastforce+
  from assms(2) have "req_productId it \<in> set (map productId d)" by (simp add: m)
  then obtain x where "x \<in> set d" "productId x = req_productId it" by auto
  with e show ?thesis by (auto simp: stockOf_def)
qed

lemma validateItems_first_failure:
  assumes "\<forall>x \<in> set pre. passes db x"
  shows "\<not> is_uuid db (req_productId it) \<Longrightarrow>
           validateItems db (pre @ it # post) a d = Inl QueryFailed"
    and "is_uuid db (req_productId it) \<Longrightarrow> findProduct db (req_productId it) = None \<Longrightarrow>
           validateItems db (pre @ it # post) a d = Inl (ProductNotFound (req_productId it))"
    and "is_uuid db (req_productId it) \<Longrightarrow> findProduct db (req_productId it) = Some p \<Longrightarrow>
           \<not> isAvailable p \<Longrightarrow>
           validateItems db (pre @ it # post) a d = Inl (ProductUnavailable (name p))"
    and "is_uuid db (req_productId it) \<Longrightarrow> findProduct db (req_productId it) = Some p \<Longrightarrow>
           isAvailable p \<Longrightarrow> stockQuantity p < req_quantity it \<Longrightarrow>
           validateItems db (pre @ it # post) a d
             = Inl (InsufficientStock (name p) (stockQuantity p))"
proof -
  from validateItems_append_pass[OF assms, of "it # post" a d] obtain a' d' where
    eq: "validateItems db (pre @ it # post) a d = validateItems db (it # post) a' d'"
    by blast
  show "\<not> is_uuid db (req_productId it) \<Longrightarrow>
           validateItems db (pre @ it # post) a d = Inl QueryFailed"
    by (simp add: eq findOneProduct_def)
  show "is_uuid db (req_productId it) \<Longrightarrow> findProduct db (req_productId it) = None \<Longrightarrow>
           validateItems db (pre @ it # post) a d = Inl (ProductNotFound (req_productId it))"
    by (simp add: eq findOneProduct_def)
  show "is_uuid db (req_productId it) \<Longrightarrow> findProduct db (req_productId it) = Some p \<Longrightarrow>
           \<not> isAvailable p \<Longrightarrow>
           validateItems db (pre @ it # post) a d = Inl (ProductUnavailable (name p))"
    by (simp add: eq findOneProduct_def)
  show "is_uuid db (req_productId it) \<Longrightarrow> findProduct db (req_productId it) = Some p \<Longrightarrow>
           isAvailable p \<Longrightarrow> stockQuantity p < req_quantity it \<Longrightarrow>
           validateItems db (pre @ it # post) a d
             = Inl (InsufficientStock (name p) (stockQuantity p))"
    by (simp add: eq findOneProduct_def)
qed

lemma step_wf:
  assumes "wf_db db" shows "wf_db (step db op)"
proof (cases op)
  case (CreateOrder env uid orderData)
  with createOrder_wf[OF assms] show ?thesis by simp
next
  case (UpdateOrderStatus clock oid st)
  with updateOrderStatus_wf[OF assms] show ?thesis by simp
next
  case (CancelOrder clock oid)
  from cancelOrder_snd[of clock db oid] show ?thesis
  proof
    assume "snd (cancelOrder clock db oid) = db"
    with assms CancelOrder show ?thesis by simp
  next
    assume "\<exists>ord. getOrderById db oid = Some ord \<and> status ord \<noteq> CANCELLED
      \<and> status ord \<noteq> DELIVERED \<and>
      snd (cancelOrder clock db oid)
        = snd (updateOrderStatus clock (incrementAll db (items ord)) oid CANCELLED)"
    then obtain ord :: OrderWithItems where eq: "snd (cancelOrder clock db oid)
        = snd (updateOrderStatus clock (incrementAll db (items ord)) oid CANCELLED)"
      by blast
    have "wf_db (incrementAll db (items ord))" using assms by (simp add: incrementAll_wf)
    from updateOrderStatus_wf[OF this] CancelOrder eq show ?thesis by simp
  qed
next
  case (GetOrderById oid)
  with assms show ?thesis by simp
next
  case (GetUserOrders uid pg lmt)
  with assms show ?thesis by (simp add: getUserOrders_def Let_def)
next
  case (GetAllOrders pg lmt)
  with assms show ?thesis by (simp add: getAllOrders_def Let_def)
qed

text \<open>The schema constraints hold in every database the service can reach from one
  with no orders.\<close>

lemma run_wf: "wf_db db \<Longrightarrow> wf_db (run db ops)"
  by (induction ops arbitrary: db) (simp_all add: run_def step_wf)

lemma wf_db_no_orders: "wf_db \<lparr>products = ps, orders = [], orderItems = [], is_uuid = u\<rparr>"
  by (simp add: wf_db_def)

lemma setStatus_other: "order_id r \<noteq> oid \<Longrightarrow> setStatus clock oid st r = r"
  by (simp add: setStatus_def)

text \<open>One call of the service and one existing order: the order stays, with its items; and
  its row is untouched unless the call is an \<^verbatim>\<open>updateOrderStatus\<close> of that order, or
  a \<^verbatim>\<open>cancelOrder\<close> of it while it is neither DELIVERED nor CANCELLED.\<close>

lemma step_row:
  assumes "find (\<lambda>o'. order_id o' = X) (orders db) = Some r"
  shows "\<exists>r'. find (\<lambda>o'. order_id o' = X) (orders (step db op)) = Some r'
     \<and> filter (\<lambda>i. orderId i = X) (orderItems (step db op))
           = filter (\<lambda>i. orderId i = X) (orderItems db)
     \<and> ((status r = DELIVERED \<or> status r = CANCELLED)
          \<and> (\<forall>clock st. op \<noteq> UpdateOrderStatus clock X st) \<longrightarrow> r' = r)"
proof -
  from find_Some_mem[OF assms] have rid: "order_id r = X" by simp
  show ?thesis
  proof (cases op)
    case (CreateOrder env uid orderData)
    from createOrder_snd[of env db uid orderData] show ?thesis
    proof
      assume "snd (createOrder env db uid orderData) = db"
      with assms CreateOrder show ?thesis by simp
    next
      assume "\<exists>a d. \<not> list_ex (\<lambda>o'. order_id o' = gen_orderId env
                               \<or> orderNumber o' = gen_orderNumber env) (orders db)
        \<and> snd (createOrder env db uid orderData) = inserted env db uid orderData a d"
      then obtain a d where fresh: "\<not> list_ex (\<lambda>o'. order_id o' = gen_orderId env
                               \<or> orderNumber o' = gen_orderNumber env) (orders db)"
        and eq: "snd (createOrder env db uid orderData) = inserted env db uid orderData a d"
        by blast
      show ?thesis
        using CreateOrder eq inserted_find[OF assms] inserted_items_of[OF assms fresh]
        by simp
    qed
  next
    case (UpdateOrderStatus clock oid st)
    have "oid \<noteq> X \<Longrightarrow> setStatus clock oid st r = r"
      using rid by (simp add: setStatus_other)
    with UpdateOrderStatus assms show ?thesis
      by (auto simp: updateOrderStatus_find updateOrderStatus_orderItems)
  next
    case (CancelOrder clock oid)
    from cancelOrder_snd[of clock db oid] show ?thesis
    proof
      assume "snd (cancelOrder clock db oid) = db"
      with assms CancelOrder show ?thesis by simp
    next
      assume "\<exists>ord. getOrderById db oid = Some ord \<and> status ord \<noteq> CANCELLED
        \<and> status ord \<noteq> DELIVERED \<and>
        snd (cancelOrder clock db oid)
          = snd (updateOrderStatus clock (incrementAll db (items ord)) oid CANCELLED)"
      then obtain ord :: OrderWithItems where
        g: "getOrderById db oid = Some ord" and
        st: "status ord \<noteq> CANCELLED" "status ord \<noteq> DELIVERED" and
        eq: "snd (cancelOrder clock db oid)
          = snd (updateOrderStatus clock (incrementAll db (items ord)) oid CANCELLED)"
        by blast
      have keep: "(status r = DELIVERED \<or> status r = CANCELLED)
                    \<longrightarrow> setStatus clock oid CANCELLED r = r"
      proof (cases "oid = X")
        case True
        with g assms have "ord = loadItems db r" by (simp add: getOrderById_def)
        with st show ?thesis by (simp add: loadItems_fields)
      next
        case False
        with rid show ?thesis by (simp add: setStatus_other)
      qed
      with CancelOrder eq assms show ?thesis
        by (simp add: updateOrderStatus_find updateOrderStatus_orderItems)
    qed
  next
    case (GetOrderById oid)
    with assms show ?thesis by simp
  next
    case (GetUserOrders uid pg lmt)
    with assms show ?thesis by (simp add: getUserOrders_def Let_def)
  next
    case (GetAllOrders pg lmt)
    with assms show ?thesis by (simp add: getAllOrders_def Let_def)
  qed
qed

lemma step_order:
  assumes "getOrderById db X = Some ord"
  shows "\<exists>ord'. getOrderById (step db op) X = Some ord' \<and> items ord' = items ord
     \<and> ((status ord = DELIVERED \<or> status ord = CANCELLED)
          \<and> (\<forall>clock st. op \<noteq> UpdateOrderStatus clock X st) \<longrightarrow> ord' = ord)"
proof -
  from assms obtain r where r: "find (\<lambda>o'. order_id o' = X) (orders db) = Some r"
    and ord: "ord = loadItems db r"
    by (auto simp: getOrderById_def split: option.splits)
  from find_Some_mem[OF r] have rid: "order_id r = X" by simp
  from step_row[OF r, of op] obtain r' where
    f: "find (\<lambda>o'. order_id o' = X) (orders (step db op)) = Some r'" and
    i: "filter (\<lambda>i. orderId i = X) (orderItems (step db op))
           = filter (\<lambda>i. orderId i = X) (orderItems db)" and
    k: "(status r = DELIVERED \<or> status r = CANCELLED)
          \<and> (\<forall>clock st. op \<noteq> UpdateOrderStatus clock X st) \<longrightarrow> r' = r"
    by blast
  from find_Some_mem[OF f] have rid': "order_id r' = X" by simp
  have g: "getOrderById (step db op) X = Some (loadItems (step db op) r')"
    using f by (simp add: getOrderById_def)
  have it: "items (loadItems (step db op) r') = items ord"
    using i rid rid' ord by (simp add: loadItems_fields)
  have same: "loadItems (step db op) r = loadItems db r"
    using i rid by (simp add: loadItems_def)
  from k same ord have "(status ord = DELIVERED \<or> status ord = CANCELLED)
          \<and> (\<forall>clock st. op \<noteq> UpdateOrderStatus clock X st)
        \<longrightarrow> loadItems (step db op) r' = ord"
    by (auto simp: loadItems_fields)
  with g it show ?thesis by blast
qed

section \<open>Facts about the two queries\<close>

lemma ceiling_pages:
  assumes "0 < l"
  shows "t \<le> \<lceil>real_of_int t / real_of_int l\<rceil> * l"
    and "(\<lceil>real_of_int t / real_of_int l\<rceil> - 1) * l < t"
proof -
  let ?n = "\<lceil>real_of_int t / real_of_int l\<rceil>"
  from assms have l: "0 < real_of_int l" by simp
  from ceiling_divide_upper[OF l, of "real_of_int t"]
  have "real_of_int t \<le> real_of_int (?n * l)" by simp
  then show "t \<le> ?n * l" by (simp only: of_int_le_iff)
  from ceiling_divide_lower[OF l, of "real_of_int t"]
  have "real_of_int ((?n - 1) * l) < real_of_int t" by simp
  then show "(?n - 1) * l < t" by (simp only: of_int_less_iff)
qed

lemma sorted_desc:
  "sorted_wrt (\<lambda>a b. createdAt b \<le> createdAt a) (orderBy_createdAt_DESC rows)"
proof -
  have "sorted (map (\<lambda>ord. - createdAt ord) (sort_key (\<lambda>ord. - createdAt ord) rows))"
    by (rule sorted_sort_key)
  then show ?thesis
    by (simp add: orderBy_createdAt_DESC_def sorted_map)
qed

lemma sorted_desc_page:
  assumes "sorted_wrt (\<lambda>a b. createdAt b \<le> createdAt a) rows"
  shows "sorted_wrt (\<lambda>a b. createdAt b \<le> createdAt a) (map (loadItems db) (take n (drop m rows)))"
proof -
  have "sorted_wrt (\<lambda>a b. createdAt b \<le> createdAt a) (take n (drop m rows))"
    using assms by (intro sorted_wrt_take sorted_wrt_drop)
  moreover have "createdAt (loadItems db r) = createdAt r" for r
    by (simp add: loadItems_def Order.defs OrderWithItems.defs)
  ultimately show ?thesis by (simp add: sorted_wrt_map)
qed

lemma page_of_paginate:
  assumes "1 \<le> pg" and "1 \<le> lmt"
    and "sorted_wrt (\<lambda>a b. createdAt b \<le> createdAt a) rows"
  shows "page_of db rows pg lmt
           (\<lparr>page_orders = map (loadItems db) (take (nat lmt) (drop (nat ((pg - 1) * lmt)) rows)),
             total = int (length rows), page = pg, limit = lmt,
             totalPages = \<lceil>real_of_int (int (length rows)) / real_of_int lmt\<rceil>\<rparr>, db)"
proof -
  let ?n = "\<lceil>real_of_int (int (length rows)) / real_of_int lmt\<rceil>"
  from assms(2) have l: "0 < lmt" by simp
  note c = ceiling_pages[OF l, of "int (length rows)"]
  have len: "int (length (take (nat lmt) (drop (nat ((pg - 1) * lmt)) rows))) \<le> lmt"
    using l by simp
  have ex: "?n = 3 \<and> (pg = 3 \<longrightarrow> length (take (nat lmt) (drop (nat ((pg - 1) * lmt)) rows)) = 5)"
    if "int (length rows) = 25" "lmt = 10"
  proof
    from c that show "?n = 3" by simp
    from that show "pg = 3 \<longrightarrow> length (take (nat lmt) (drop (nat ((pg - 1) * lmt)) rows)) = 5"
      by auto
  qed
  show ?thesis
    unfolding page_of_def
    using c len ex sorted_desc_page[OF assms(3), of db "nat lmt" "nat ((pg - 1) * lmt)"]
    by simp
qed

lemma getUserOrders_unfold:
  "getUserOrders db uid pg lmt =
     (let rows = orderBy_createdAt_DESC (filter (\<lambda>ord. userId ord = uid) (orders db))
      in (\<lparr>page_orders = map (loadItems db) (take (nat lmt) (drop (nat ((pg - 1) * lmt)) rows)),
            total = int (length rows), page = pg, limit = lmt,
            totalPages = \<lceil>real_of_int (int (length rows)) / real_of_int lmt\<rceil>\<rparr>, db))"
  by (simp add: getUserOrders_def Let_def)

lemma getAllOrders_unfold:
  "getAllOrders db pg lmt =
     (let rows = orderBy_createdAt_DESC (orders db)
      in (\<lparr>page_orders = map (loadItems db) (take (nat lmt) (drop (nat ((pg - 1) * lmt)) rows)),
            total = int (length rows), page = pg, limit = lmt,
            totalPages = \<lceil>real_of_int (int (length rows)) / real_of_int lmt\<rceil>\<rparr>, db))"
  by (simp add: getAllOrders_def Let_def)

section \<open>The example data, evaluated\<close>

lemmas example_defs = widget_def gadget_def retired_def shop_def env1_def env2_def ask_def
  request_def

lemmas eval_defs = createOrder_def commitOrder_def saveOrder_def getOrderById_def loadItems_def
  Order.defs OrderWithItems.defs findProduct_def findOneProduct_def decrement_def increment_def
  Let_def stockOf_def
  updateOrderStatus_def cancelOrder_def enumerate_eq_zip

lemma shop1_eq: "shop1 = \<lparr>products = [widget\<lparr>stockQuantity := 3\<rparr>, gadget\<lparr>stockQuantity := 2\<rparr>, retired],
   orders = [\<lparr>order_id = ''o1'', orderNumber = ''ORD-1'', userId = ''u1'', status = PENDING,
      totalAmount = 2500, shippingCost = 0, taxAmount = 0, shippingAddress = None, shippingCity = None,
      shippingPostalCode = None, shippingCountry = None, order_notes = None, createdAt = 100, updatedAt = 100\<rparr>],
   orderItems = [\<lparr>productId = ''A'', quantity = 2, unitPrice = 1000, totalPrice = 2000, item_id = ''i'', orderId = ''o1''\<rparr>,
     \<lparr>productId = ''B'', quantity = 1, unitPrice = 500, totalPrice = 500, item_id = ''ii'', orderId = ''o1''\<rparr>],
   is_uuid = (\<lambda>t. t \<noteq> ''not-a-uuid'')\<rparr>"
  by (simp add: shop1_def example_defs eval_defs)

lemma shop1_delivered_eq:
  "shop1_delivered = shop1\<lparr>orders := [\<lparr>order_id = ''o1'', orderNumber = ''ORD-1'', userId = ''u1'', status = DELIVERED,
      totalAmount = 2500, shippingCost = 0, taxAmount = 0, shippingAddress = None, shippingCity = None,
      shippingPostalCode = None, shippingCountry = None, order_notes = None, createdAt = 100, updatedAt = 150\<rparr>]\<rparr>"
  by (simp add: shop1_delivered_def shop1_eq updateOrderStatus_def Let_def)

section \<open>The claims\<close>

text \<open>
  C1, as stated, fails for a productId that is no uuid: it matches no product, yet the
  lookup itself throws (\<^verbatim>\<open>QueryFailedError\<close>) before \<^verbatim>\<open>if (!product)\<close> is reached, and
  the call does not fail with \<^verbatim>\<open>Product with ID ... not found\<close>.
\<close>

theorem createOrder_malformed_productId:
  "findProduct shop ''not-a-uuid'' = None
   \<and> \<not> is_uuid shop ''not-a-uuid''
   \<and> createOrder env1 shop ''u1'' (request [ask ''not-a-uuid'' 1]) = (Inl QueryFailed, shop)
   \<and> fst (createOrder env1 shop ''u1'' (request [ask ''not-a-uuid'' 1]))
        \<noteq> Inl (ProductNotFound ''not-a-uuid'')"
  by (simp add: example_defs eval_defs)

text \<open>
  C1, amended. \<^verbatim>\<open>createOrder\<close> throws at the first requested item that fails a check,
  before it writes anything. When that item's productId is a uuid, the error is
  \<^verbatim>\<open>Product with ID ... not found\<close> (ProductNotFound) when the productId matches no
  product, \<^verbatim>\<open>Product ... is not available\<close> (ProductUnavailable) when the matched product's
  availability flag is false, and \<^verbatim>\<open>Insufficient stock for product ... Available: n\<close>
  (InsufficientStock, with the product's current stock) when the requested quantity exceeds
  that stock. Whenever every productId of the request is a uuid and some item fails a check,
  the call fails with one of these three errors; and whenever the call fails with one of
  them, the database it leaves is the database it found: no order, no order item, no change
  of any stock.
\<close>

theorem createOrder_rejects_invalid_item:
  "(req_items orderData = pre @ it # post \<and> (\<forall>x \<in> set pre. passes db x)
      \<and> is_uuid db (req_productId it) \<longrightarrow>
      (findProduct db (req_productId it) = None \<longrightarrow>
         createOrder env db uid orderData = (Inl (ProductNotFound (req_productId it)), db))
    \<and> (\<forall>p. findProduct db (req_productId it) = Some p \<and> \<not> isAvailable p \<longrightarrow>
         createOrder env db uid orderData = (Inl (ProductUnavailable (name p)), db))
    \<and> (\<forall>p. findProduct db (req_productId it) = Some p \<and> isAvailable p
             \<and> stockQuantity p < req_quantity it \<longrightarrow>
         createOrder env db uid orderData
           = (Inl (InsufficientStock (name p) (stockQuantity p)), db)))
   \<and> ((\<forall>x \<in> set (req_items orderData). is_uuid db (req_productId x))
        \<and> (\<exists>x \<in> set (req_items orderData). \<not> passes db x) \<longrightarrow>
        (\<exists>e. createOrder env db uid orderData = (Inl e, db)
           \<and> ((\<exists>i. e = ProductNotFound i) \<or> (\<exists>n. e = ProductUnavailable n)
                \<or> (\<exists>n k. e = InsufficientStock n k))))
   \<and> (\<forall>e db'. createOrder env db uid orderData = (Inl e, db')
           \<and> ((\<exists>i. e = ProductNotFound i) \<or> (\<exists>n. e = ProductUnavailable n)
                \<or> (\<exists>n k. e = InsufficientStock n k))
        \<longrightarrow> db' = db)"
proof (intro conjI impI allI)
  assume h: "req_items orderData = pre @ it # post \<and> (\<forall>x \<in> set pre. passes db x)
      \<and> is_uuid db (req_productId it)"
  then have its: "req_items orderData = pre @ it # post" and pre: "\<forall>x \<in> set pre. passes db x"
    and u: "is_uuid db (req_productId it)"
    by simp_all
  show "createOrder env db uid orderData = (Inl (ProductNotFound (req_productId it)), db)"
    if "findProduct db (req_productId it) = None"
    using validateItems_first_failure(2)[OF pre u that, of post 0 "[]"]
    by (simp add: createOrder_Inl_validation its)
  show "createOrder env db uid orderData = (Inl (ProductUnavailable (name p)), db)"
    if "findProduct db (req_productId it) = Some p \<and> \<not> isAvailable p" for p
    using validateItems_first_failure(3)[OF pre u, of p post 0 "[]"] that
    by (simp add: createOrder_Inl_validation its)
  show "createOrder env db uid orderData
           = (Inl (InsufficientStock (name p) (stockQuantity p)), db)"
    if "findProduct db (req_productId it) = Some p \<and> isAvailable p
             \<and> stockQuantity p < req_quantity it" for p
    using validateItems_first_failure(4)[OF pre u, of p post 0 "[]"] that
    by (simp add: createOrder_Inl_validation its)
next
  assume a: "(\<forall>x \<in> set (req_items orderData). is_uuid db (req_productId x))
        \<and> (\<exists>x \<in> set (req_items orderData). \<not> passes db x)"
  then have "\<exists>x \<in> set (req_items orderData). \<not> passes db x" by simp
  from validateItems_some_fails[OF this, of 0 "[]"] obtain e where
    e: "validateItems db (req_items orderData) 0 [] = Inl e"
    by blast
  from a have "\<forall>x \<in> set (req_items orderData). is_uuid db (req_productId x)" by simp
  from createOrder_Inl_validation[OF e] validateItems_Inl_kind[OF e this]
  show "\<exists>e. createOrder env db uid orderData = (Inl e, db)
           \<and> ((\<exists>i. e = ProductNotFound i) \<or> (\<exists>n. e = ProductUnavailable n)
                \<or> (\<exists>n k. e = InsufficientStock n k))"
    by blast
next
  fix e db'
  assume "createOrder env db uid orderData = (Inl e, db')
           \<and> ((\<exists>i. e = ProductNotFound i) \<or> (\<exists>n. e = ProductUnavailable n)
                \<or> (\<exists>n k. e = InsufficientStock n k))"
  then show "db' = db"
    using createOrder_validation_error_only_from_loop by blast
qed

theorem createOrder_rejects_invalid_item_witness:
  "passes shop (ask ''A'' 1)
   \<and> is_uuid shop ''Z'' \<and> findProduct shop ''Z'' = None
   \<and> createOrder env1 shop ''u1'' (request [ask ''A'' 1, ask ''Z'' 1])
        = (Inl (ProductNotFound ''Z''), shop)
   \<and> is_uuid shop ''C'' \<and> findProduct shop ''C'' = Some retired \<and> \<not> isAvailable retired
   \<and> createOrder env1 shop ''u1'' (request [ask ''A'' 1, ask ''C'' 1])
        = (Inl (ProductUnavailable ''Retired''), shop)
   \<and> is_uuid shop ''B'' \<and> findProduct shop ''B'' = Some gadget \<and> isAvailable gadget
   \<and> stockQuantity gadget = 3
   \<and> createOrder env1 shop ''u1'' (request [ask ''A'' 1, ask ''B'' 4])
        = (Inl (InsufficientStock ''Gadget'' 3), shop)"
proof -
  have p: "passes shop (ask ''A'' 1)"
    by (simp add: passes_def findProduct_def example_defs)
  have u: "is_uuid shop ''Z''" "is_uuid shop ''C''" "is_uuid shop ''B''"
    by (simp_all add: shop_def)
  have z: "findProduct shop ''Z'' = None"
    and c: "findProduct shop ''C'' = Some retired" "\<not> isAvailable retired" "name retired = ''Retired''"
    and b: "findProduct shop ''B'' = Some gadget" "isAvailable gadget" "stockQuantity gadget = 3"
      "name gadget = ''Gadget''"
    by (simp_all add: findProduct_def example_defs)
  have r: "req_items (request [ask ''A'' 1, ask i n]) = [ask ''A'' 1] @ ask i n # []"
    "req_productId (ask i n) = i" "req_quantity (ask i n) = n" for i n
    by (simp_all add: request_def ask_def)
  from createOrder_rejects_invalid_item
         [of "request [ask ''A'' 1, ask ''Z'' 1]" "[ask ''A'' 1]" "ask ''Z'' 1" "[]" shop env1 "''u1''"]
    p u z r
  have w1: "createOrder env1 shop ''u1'' (request [ask ''A'' 1, ask ''Z'' 1])
        = (Inl (ProductNotFound ''Z''), shop)"
    by simp
  from createOrder_rejects_invalid_item
         [of "request [ask ''A'' 1, ask ''C'' 1]" "[ask ''A'' 1]" "ask ''C'' 1" "[]" shop env1 "''u1''"]
    p u c r
  have w2: "createOrder env1 shop ''u1'' (request [ask ''A'' 1, ask ''C'' 1])
        = (Inl (ProductUnavailable ''Retired''), shop)"
    by simp
  from createOrder_rejects_invalid_item
         [of "request [ask ''A'' 1, ask ''B'' 4]" "[ask ''A'' 1]" "ask ''B'' 4" "[]" shop env1 "''u1''"]
    p u b r
  have w3: "createOrder env1 shop ''u1'' (request [ask ''A'' 1, ask ''B'' 4])
        = (Inl (InsufficientStock ''Gadget'' 3), shop)"
    by simp
  from p u z c b w1 w2 w3 show ?thesis by simp
qed



text \<open>
  C3, on the code as it is. The stock check is a read in the first loop of
  \<^verbatim>\<open>createOrder\<close> and the decrement an unconditional write in its second loop, with an
  \<^verbatim>\<open>await\<close> at every repository call in between. With stock 5 and two calls that each
  ask for 3: when both calls run their first loop before either runs its writes, both
  checks pass on stock 5, both orders are saved, and the stock ends at -1. (Run one
  after the other, the second call is refused with \<^verbatim>\<open>Insufficient stock\<close>.) The same
  read-then-write shows in a single call whose request names the product twice: each item
  is checked against the stock of 5, and the stock ends at -1.
\<close>

theorem createOrder_interleaved_oversell:
  "stockOf shop ''A'' = Some 5
   \<and> validateItems shop [ask ''A'' 3] 0 []
        = Inr (3000, [\<lparr>productId = ''A'', quantity = 3, unitPrice = 1000, totalPrice = 3000\<rparr>])
   \<and> \<not> isl (fst (commitOrder env1 shop ''u1'' (request [ask ''A'' 3]) 3000
                  [\<lparr>productId = ''A'', quantity = 3, unitPrice = 1000, totalPrice = 3000\<rparr>]))
   \<and> \<not> isl (fst (commitOrder env2
                  (snd (commitOrder env1 shop ''u1'' (request [ask ''A'' 3]) 3000
                     [\<lparr>productId = ''A'', quantity = 3, unitPrice = 1000, totalPrice = 3000\<rparr>]))
                  ''u2'' (request [ask ''A'' 3]) 3000
                  [\<lparr>productId = ''A'', quantity = 3, unitPrice = 1000, totalPrice = 3000\<rparr>]))
   \<and> stockOf (snd (commitOrder env2
                  (snd (commitOrder env1 shop ''u1'' (request [ask ''A'' 3]) 3000
                     [\<lparr>productId = ''A'', quantity = 3, unitPrice = 1000, totalPrice = 3000\<rparr>]))
                  ''u2'' (request [ask ''A'' 3]) 3000
                  [\<lparr>productId = ''A'', quantity = 3, unitPrice = 1000, totalPrice = 3000\<rparr>])) ''A''
        = Some (- 1)
   \<and> fst (createOrder env2 (snd (createOrder env1 shop ''u1'' (request [ask ''A'' 3])))
             ''u2'' (request [ask ''A'' 3]))
        = Inl (InsufficientStock ''Widget'' 2)
   \<and> \<not> isl (fst (createOrder env1 shop ''u1'' (request [ask ''A'' 3, ask ''A'' 3])))
   \<and> stockOf (snd (createOrder env1 shop ''u1'' (request [ask ''A'' 3, ask ''A'' 3]))) ''A''
        = Some (- 1)"
  by (simp add: example_defs eval_defs)

text \<open>
  C4, as stated, fails when two items of one request name the same product: both
  quantities are taken off the stock, not one of them.
\<close>

theorem createOrder_duplicate_item_stock:
  "\<not> isl (fst (createOrder env1 shop ''u1'' (request [ask ''A'' 1, ask ''A'' 1])))
   \<and> stockOf shop ''A'' = Some 5
   \<and> req_quantity (ask ''A'' 1) = 1
   \<and> stockOf (snd (createOrder env1 shop ''u1'' (request [ask ''A'' 1, ask ''A'' 1]))) ''A''
        = Some 3
   \<and> stockOf (snd (createOrder env1 shop ''u1'' (request [ask ''A'' 1, ask ''A'' 1]))) ''A''
        \<noteq> map_option (\<lambda>s. s - req_quantity (ask ''A'' 1)) (stockOf shop ''A'')"
  by (simp add: example_defs eval_defs)

text \<open>
  C4, amended. After a successful \<^verbatim>\<open>createOrder\<close>, every product's stock is its stock
  before the call minus the sum of the quantities of the request's items that name that
  product. So every product a request item names exists and loses that sum, a product that
  no item names keeps its stock, and when no two items name the same product, each
  named product loses exactly its item's quantity.
\<close>

theorem createOrder_decrements_stock:
  assumes "createOrder env db uid orderData = (Inr ord, db')"
  shows "(\<forall>j. stockOf db' j
              = map_option (\<lambda>s. s - requested j (req_items orderData)) (stockOf db j))
    \<and> (\<forall>it \<in> set (req_items orderData). \<exists>s. stockOf db (req_productId it) = Some s
          \<and> stockOf db' (req_productId it)
              = Some (s - requested (req_productId it) (req_items orderData)))
    \<and> (\<forall>j. j \<notin> req_productId ` set (req_items orderData) \<longrightarrow> stockOf db' j = stockOf db j)
    \<and> (distinct (map req_productId (req_items orderData)) \<longrightarrow>
         (\<forall>it \<in> set (req_items orderData). \<exists>s. stockOf db (req_productId it) = Some s
            \<and> stockOf db' (req_productId it) = Some (s - req_quantity it)))"
proof -
  from createOrder_Inr[OF assms] obtain a d where
    v: "validateItems db (req_items orderData) 0 [] = Inr (a, d)" and
    db': "db' = inserted env db uid orderData a d"
    by blast
  have st: "\<And>j. stockOf db' j
              = map_option (\<lambda>s. s - requested j (req_items orderData)) (stockOf db j)"
    by (simp add: db' stockOf_inserted)
  have ex: "\<exists>s. stockOf db (req_productId it) = Some s
          \<and> stockOf db' (req_productId it)
              = Some (s - requested (req_productId it) (req_items orderData))"
    if "it \<in> set (req_items orderData)" for it
    using validateItems_products_exist[OF v that] by (auto simp: st)
  have un: "stockOf db' j = stockOf db j" if "j \<notin> req_productId ` set (req_items orderData)" for j
    using that by (simp add: st requested_unreferenced option.map_ident)
  have di: "\<exists>s. stockOf db (req_productId it) = Some s
            \<and> stockOf db' (req_productId it) = Some (s - req_quantity it)"
    if "distinct (map req_productId (req_items orderData))" "it \<in> set (req_items orderData)" for it
    using ex[OF that(2)] requested_distinct[OF that] by simp
  from st ex un di show ?thesis by blast
qed

theorem createOrder_decrements_stock_witness:
  "\<not> isl (fst (createOrder env1 shop ''u1'' (request [ask ''A'' 2, ask ''B'' 1])))
   \<and> stockOf shop ''A'' = Some 5 \<and> stockOf shop ''B'' = Some 3 \<and> stockOf shop ''C'' = Some 9
   \<and> stockOf (snd (createOrder env1 shop ''u1'' (request [ask ''A'' 2, ask ''B'' 1]))) ''A'' = Some 3
   \<and> stockOf (snd (createOrder env1 shop ''u1'' (request [ask ''A'' 2, ask ''B'' 1]))) ''B'' = Some 2
   \<and> stockOf (snd (createOrder env1 shop ''u1'' (request [ask ''A'' 2, ask ''B'' 1]))) ''C'' = Some 9"
proof -
  let ?rq = "request [ask ''A'' 2, ask ''B'' 1]"
  obtain ord where c: "createOrder env1 shop ''u1'' ?rq = (Inr ord, shop1)"
    by (simp add: shop1_def example_defs eval_defs)
  have s: "stockOf shop ''A'' = Some 5" "stockOf shop ''B'' = Some 3" "stockOf shop ''C'' = Some 9"
    by (simp_all add: stockOf_def findProduct_def example_defs)
  have r: "requested ''A'' (req_items ?rq) = 2" "requested ''B'' (req_items ?rq) = 1"
    "requested ''C'' (req_items ?rq) = 0"
    by (simp_all add: requested_def request_def ask_def)
  from createOrder_decrements_stock[OF c]
  have "\<forall>j. stockOf shop1 j = map_option (\<lambda>s. s - requested j (req_items ?rq)) (stockOf shop j)"
    by blast
  with c s r show ?thesis by simp
qed

text \<open>
  C5. For an existing order that is neither DELIVERED nor CANCELLED, \<^verbatim>\<open>cancelOrder\<close>
  succeeds, adds to the stock of each product the quantity recorded on each of the order's
  items that name it (exactly the item's quantity when no two items name the same product;
  products that no item names keep their stock), and sets the order's status to CANCELLED,
  in the database and in the order it returns.
\<close>

theorem cancelOrder_restores_stock:
  assumes "getOrderById db oid = Some ord"
    and "status ord \<noteq> DELIVERED" and "status ord \<noteq> CANCELLED"
  shows "\<exists>ord' db'. cancelOrder clock db oid = (Inr (Some ord'), db')
           \<and> status ord' = CANCELLED
           \<and> getOrderById db' oid = Some ord'
           \<and> items ord' = items ord
           \<and> (\<forall>j. stockOf db' j = map_option (\<lambda>s. s + recorded j (items ord)) (stockOf db j))
           \<and> (\<forall>j. j \<notin> productId ` set (items ord) \<longrightarrow> stockOf db' j = stockOf db j)
           \<and> (distinct (map productId (items ord)) \<longrightarrow>
                (\<forall>it \<in> set (items ord).
                   stockOf db' (productId it)
                     = map_option (\<lambda>s. s + quantity it) (stockOf db (productId it))))"
proof -
  from cancelOrder_success[OF assms, of clock] obtain ord' where
    c: "cancelOrder clock db oid
          = (Inr (Some ord'), snd (updateOrderStatus clock (incrementAll db (items ord)) oid CANCELLED))"
    and s: "status ord' = CANCELLED" and i: "items ord' = items ord"
    and g: "getOrderById (snd (cancelOrder clock db oid)) oid = Some ord'"
    by blast
  let ?db' = "snd (cancelOrder clock db oid)"
  have st: "\<And>j. stockOf ?db' j = map_option (\<lambda>s. s + recorded j (items ord)) (stockOf db j)"
    by (rule cancelOrder_stock[OF assms])
  have un: "\<And>j. j \<notin> productId ` set (items ord) \<Longrightarrow> stockOf ?db' j = stockOf db j"
    by (simp add: st recorded_unreferenced option.map_ident)
  have di: "distinct (map productId (items ord)) \<Longrightarrow> it \<in> set (items ord) \<Longrightarrow>
      stockOf ?db' (productId it) = map_option (\<lambda>s. s + quantity it) (stockOf db (productId it))"
    for it
    by (simp add: st recorded_distinct)
  from c have "cancelOrder clock db oid = (Inr (Some ord'), ?db')" by simp
  with s g i st un di show ?thesis by blast
qed

theorem cancelOrder_restores_stock_witness:
  "map_option status (getOrderById shop1 ''o1'') = Some PENDING
   \<and> map_option (map productId \<circ> items) (getOrderById shop1 ''o1'') = Some [''A'', ''B'']
   \<and> map_option (map quantity \<circ> items) (getOrderById shop1 ''o1'') = Some [2, 1]
   \<and> stockOf shop1 ''A'' = Some 3 \<and> stockOf shop1 ''B'' = Some 2 \<and> stockOf shop1 ''C'' = Some 9
   \<and> stockOf (snd (cancelOrder 300 shop1 ''o1'')) ''A'' = Some 5
   \<and> stockOf (snd (cancelOrder 300 shop1 ''o1'')) ''B'' = Some 3
   \<and> stockOf (snd (cancelOrder 300 shop1 ''o1'')) ''C'' = Some 9
   \<and> map_option status (getOrderById (snd (cancelOrder 300 shop1 ''o1'')) ''o1'') = Some CANCELLED"
proof -
  obtain ord where p: "getOrderById shop1 ''o1'' = Some ord" "status ord = PENDING"
    "map productId (items ord) = [''A'', ''B'']" "map quantity (items ord) = [2, 1]"
    by (simp add: shop1_eq getOrderById_def loadItems_fields)
  from p(3) have r: "recorded ''A'' (items ord) = 2" "recorded ''B'' (items ord) = 1"
    "recorded ''C'' (items ord) = 0"
    using p(4) by (auto simp: recorded_def map_eq_Cons_conv)
  have s: "stockOf shop1 ''A'' = Some 3" "stockOf shop1 ''B'' = Some 2" "stockOf shop1 ''C'' = Some 9"
    by (simp_all add: shop1_eq stockOf_def findProduct_def example_defs)
  from cancelOrder_restores_stock[OF p(1), of 300] p(2) obtain ord' db' where
    c: "cancelOrder 300 shop1 ''o1'' = (Inr (Some ord'), db')" "status ord' = CANCELLED"
      "getOrderById db' ''o1'' = Some ord'"
      "\<forall>j. stockOf db' j = map_option (\<lambda>s. s + recorded j (items ord)) (stockOf shop1 j)"
    by auto
  from c(1) have "snd (cancelOrder 300 shop1 ''o1'') = db'" by simp
  with c p r s show ?thesis by simp
qed

text \<open>
  C6. \<^verbatim>\<open>cancelOrder\<close> on an order that is already CANCELLED, or that is DELIVERED, throws
  (\<^verbatim>\<open>Order is already cancelled\<close>, \<^verbatim>\<open>Cannot cancel delivered order\<close>: the two
  invalid transitions) and leaves the whole database, so every stock and the status, as it
  was. A second \<^verbatim>\<open>cancelOrder\<close> after a successful one throws
  \<^verbatim>\<open>Order is already cancelled\<close>, and after both calls each product's stock is its stock
  before the first call plus the quantities recorded on the order's items, once.
\<close>

theorem cancelOrder_terminal_rejected:
  "(\<forall>ord. getOrderById db oid = Some ord \<and> status ord = CANCELLED
       \<longrightarrow> cancelOrder clock db oid = (Inl AlreadyCancelled, db))
   \<and> (\<forall>ord. getOrderById db oid = Some ord \<and> status ord = DELIVERED
       \<longrightarrow> cancelOrder clock db oid = (Inl CannotCancelDelivered, db))
   \<and> (\<forall>ord r db1. getOrderById db oid = Some ord \<and> cancelOrder clock db oid = (Inr r, db1)
       \<longrightarrow> cancelOrder clock2 db1 oid = (Inl AlreadyCancelled, db1)
         \<and> (\<forall>j. stockOf (snd (cancelOrder clock2 db1 oid)) j
                  = map_option (\<lambda>s. s + recorded j (items ord)) (stockOf db j)))"
proof (intro conjI allI impI)
  fix ord :: OrderWithItems
  assume "getOrderById db oid = Some ord \<and> status ord = CANCELLED"
  then show "cancelOrder clock db oid = (Inl AlreadyCancelled, db)"
    by (simp add: cancelOrder_def)
next
  fix ord :: OrderWithItems
  assume "getOrderById db oid = Some ord \<and> status ord = DELIVERED"
  then show "cancelOrder clock db oid = (Inl CannotCancelDelivered, db)"
    by (simp add: cancelOrder_def)
next
  fix ord :: OrderWithItems and r db1
  assume a: "getOrderById db oid = Some ord \<and> cancelOrder clock db oid = (Inr r, db1)"
  then have g: "getOrderById db oid = Some ord" and c: "cancelOrder clock db oid = (Inr r, db1)"
    by simp_all
  from cancelOrder_Inr[OF c] g have st: "status ord \<noteq> DELIVERED" "status ord \<noteq> CANCELLED"
    by auto
  from cancelOrder_success[OF g st, of clock] c obtain ord' where
    "getOrderById db1 oid = Some ord'" "status ord' = CANCELLED"
    by auto
  then show second: "cancelOrder clock2 db1 oid = (Inl AlreadyCancelled, db1)"
    by (simp add: cancelOrder_def)
  fix j
  from cancelOrder_stock[OF g st, of clock j] c
  have "stockOf db1 j = map_option (\<lambda>s. s + recorded j (items ord)) (stockOf db j)"
    by simp
  with second
  show "stockOf (snd (cancelOrder clock2 db1 oid)) j
          = map_option (\<lambda>s. s + recorded j (items ord)) (stockOf db j)"
    by simp
qed

theorem cancelOrder_terminal_rejected_witness:
  "map_option status (getOrderById shop1_delivered ''o1'') = Some DELIVERED
   \<and> cancelOrder 300 shop1_delivered ''o1'' = (Inl CannotCancelDelivered, shop1_delivered)
   \<and> map_option status (getOrderById shop1 ''o1'') = Some PENDING
   \<and> stockOf shop1 ''A'' = Some 3
   \<and> stockOf (snd (cancelOrder 300 shop1 ''o1'')) ''A'' = Some 5
   \<and> map_option status (getOrderById (snd (cancelOrder 300 shop1 ''o1'')) ''o1'') = Some CANCELLED
   \<and> cancelOrder 400 (snd (cancelOrder 300 shop1 ''o1'')) ''o1''
        = (Inl AlreadyCancelled, snd (cancelOrder 300 shop1 ''o1''))
   \<and> stockOf (snd (cancelOrder 400 (snd (cancelOrder 300 shop1 ''o1'')) ''o1'')) ''A'' = Some 5"
proof -
  obtain ord where d: "getOrderById shop1_delivered ''o1'' = Some ord" "status ord = DELIVERED"
    by (simp add: shop1_delivered_eq shop1_eq getOrderById_def loadItems_fields)
  obtain ord1 where p: "getOrderById shop1 ''o1'' = Some ord1" "status ord1 = PENDING"
    "recorded ''A'' (items ord1) = 2"
    by (simp add: shop1_eq getOrderById_def loadItems_fields recorded_def)
  have s: "stockOf shop1 ''A'' = Some 3"
    by (simp add: shop1_eq stockOf_def findProduct_def widget_def)
  from cancelOrder_success[OF p(1), of 300] p(2) obtain r where
    c: "cancelOrder 300 shop1 ''o1'' = (Inr r, snd (cancelOrder 300 shop1 ''o1''))"
    and c': "map_option status (getOrderById (snd (cancelOrder 300 shop1 ''o1'')) ''o1'') = Some CANCELLED"
    by auto
  from cancelOrder_stock[OF p(1), of 300 "''A''"] p(2,3) s
  have s1: "stockOf (snd (cancelOrder 300 shop1 ''o1'')) ''A'' = Some 5" by simp
  from cancelOrder_terminal_rejected[of shop1_delivered "''o1''" 300 0] d
  have w1: "cancelOrder 300 shop1_delivered ''o1'' = (Inl CannotCancelDelivered, shop1_delivered)"
    by blast
  from cancelOrder_terminal_rejected[of shop1 "''o1''" 300 400] p(1) c
  have w2: "cancelOrder 400 (snd (cancelOrder 300 shop1 ''o1'')) ''o1''
        = (Inl AlreadyCancelled, snd (cancelOrder 300 shop1 ''o1''))"
    and w3: "stockOf (snd (cancelOrder 400 (snd (cancelOrder 300 shop1 ''o1'')) ''o1'')) ''A''
         = map_option (\<lambda>s. s + recorded ''A'' (items ord1)) (stockOf shop1 ''A'')"
    by blast+
  from d p s s1 c' w1 w2 w3 show ?thesis by simp
qed

text \<open>
  C7, as stated, fails: \<^verbatim>\<open>updateOrderStatus\<close> checks no transition table. A DELIVERED
  order is set back to PENDING.
\<close>

theorem updateOrderStatus_leaves_terminal_state:
  "map_option status (getOrderById shop1_delivered ''o1'') = Some DELIVERED
   \<and> map_option status (fst (updateOrderStatus 500 shop1_delivered ''o1'' PENDING)) = Some PENDING
   \<and> map_option status (getOrderById (snd (updateOrderStatus 500 shop1_delivered ''o1'' PENDING)) ''o1'')
        = Some PENDING"
  by (simp add: shop1_delivered_eq shop1_eq updateOrderStatus_def getOrderById_def Let_def
        loadItems_fields)

text \<open>
  C7, amended. \<^verbatim>\<open>updateOrderStatus\<close> rejects no transition: for every existing order,
  whatever its current status (DELIVERED and CANCELLED included), and every requested status, it
  sets the order's status to the requested one and returns the updated order. No call of the
  service changes the items of an existing order; and once an order is DELIVERED or CANCELLED,
  every call other than an \<^verbatim>\<open>updateOrderStatus\<close> of that order leaves the order as
  it is.
\<close>

theorem updateOrderStatus_no_state_machine:
  assumes "getOrderById db X = Some ord"
  shows "(\<forall>clock st. \<exists>ord'. updateOrderStatus clock db X st
                  = (Some ord', snd (updateOrderStatus clock db X st))
           \<and> getOrderById (snd (updateOrderStatus clock db X st)) X = Some ord'
           \<and> status ord' = st \<and> items ord' = items ord)
    \<and> (\<forall>op. \<exists>ord'. getOrderById (step db op) X = Some ord' \<and> items ord' = items ord)
    \<and> (\<forall>op. (status ord = DELIVERED \<or> status ord = CANCELLED)
           \<and> (\<forall>clock st. op \<noteq> UpdateOrderStatus clock X st)
          \<longrightarrow> getOrderById (step db op) X = Some ord)"
proof (intro conjI allI impI)
  fix clock st
  from updateOrderStatus_existing[OF assms, of clock st] obtain ord' where
    f: "fst (updateOrderStatus clock db X st) = Some ord'" and
    s: "status ord' = st" and i: "items ord' = items ord"
    by blast
  from f have "updateOrderStatus clock db X st = (Some ord', snd (updateOrderStatus clock db X st))"
    by (metis prod.collapse)
  moreover from f have "getOrderById (snd (updateOrderStatus clock db X st)) X = Some ord'"
    by (simp add: updateOrderStatus_fst)
  ultimately show "\<exists>ord'. updateOrderStatus clock db X st
                  = (Some ord', snd (updateOrderStatus clock db X st))
           \<and> getOrderById (snd (updateOrderStatus clock db X st)) X = Some ord'
           \<and> status ord' = st \<and> items ord' = items ord"
    using s i by blast
next
  fix op
  from step_order[OF assms, of op]
  show "\<exists>ord'. getOrderById (step db op) X = Some ord' \<and> items ord' = items ord"
    by blast
next
  fix op
  assume "(status ord = DELIVERED \<or> status ord = CANCELLED)
           \<and> (\<forall>clock st. op \<noteq> UpdateOrderStatus clock X st)"
  with step_order[OF assms, of op]
  show "getOrderById (step db op) X = Some ord"
    by auto
qed

theorem updateOrderStatus_no_state_machine_witness:
  "map_option status (getOrderById shop1_delivered ''o1'') = Some DELIVERED
   \<and> map_option status (fst (updateOrderStatus 500 shop1_delivered ''o1'' SHIPPED)) = Some SHIPPED
   \<and> map_option items (fst (updateOrderStatus 500 shop1_delivered ''o1'' SHIPPED))
        = map_option items (getOrderById shop1_delivered ''o1'')
   \<and> getOrderById (step shop1_delivered (CancelOrder 600 ''o1'')) ''o1''
        = getOrderById shop1_delivered ''o1''
   \<and> getOrderById (step shop1_delivered (CreateOrder env2 ''u2'' (request [ask ''A'' 1]))) ''o1''
        = getOrderById shop1_delivered ''o1''
   \<and> getOrderById (step shop1_delivered (UpdateOrderStatus 700 ''o2'' PENDING)) ''o1''
        = getOrderById shop1_delivered ''o1''"
proof -
  obtain ord where d: "getOrderById shop1_delivered ''o1'' = Some ord" "status ord = DELIVERED"
    by (simp add: shop1_delivered_eq shop1_eq getOrderById_def loadItems_fields)
  note t = updateOrderStatus_no_state_machine[OF d(1)]
  from t obtain ord' where
    "fst (updateOrderStatus 500 shop1_delivered ''o1'' SHIPPED) = Some ord'"
    "status ord' = SHIPPED" "items ord' = items ord"
    by (metis fst_conv)
  moreover from t have k: "(status ord = DELIVERED \<or> status ord = CANCELLED)
           \<and> (\<forall>clock st. op \<noteq> UpdateOrderStatus clock ''o1'' st)
          \<longrightarrow> getOrderById (step shop1_delivered op) ''o1'' = Some ord" for op
    by blast
  have "getOrderById (step shop1_delivered (CancelOrder 600 ''o1'')) ''o1'' = Some ord"
    using k[of "CancelOrder 600 ''o1''"] d(2) by simp
  moreover
  have "getOrderById (step shop1_delivered (CreateOrder env2 ''u2'' (request [ask ''A'' 1]))) ''o1''
       = Some ord"
    using k[of "CreateOrder env2 ''u2'' (request [ask ''A'' 1])"] d(2) by simp
  moreover
  have "getOrderById (step shop1_delivered (UpdateOrderStatus 700 ''o2'' PENDING)) ''o1'' = Some ord"
    using k[of "UpdateOrderStatus 700 ''o2'' PENDING"] d(2) by simp
  ultimately show ?thesis using d by simp
qed

text \<open>
  C8, on the code as it is. The route applies no validation to the request body and the
  service checks neither that \<^verbatim>\<open>items\<close> is non-empty nor that a quantity is at least 1:
  an empty request creates an order with no items and total 0, a quantity of 0 is accepted,
  and a quantity of -2 creates an order with a negative total and raises the stock from 5
  to 7.
\<close>

theorem createOrder_accepts_empty_and_nonpositive:
  "\<not> isl (fst (createOrder env1 shop ''u1'' (request [])))
   \<and> map_option (\<lambda>ord. (totalAmount ord, items ord))
        (getOrderById (snd (createOrder env1 shop ''u1'' (request []))) ''o1'')
        = Some (0, [])
   \<and> \<not> isl (fst (createOrder env1 shop ''u1'' (request [ask ''A'' 0])))
   \<and> \<not> isl (fst (createOrder env1 shop ''u1'' (request [ask ''A'' (- 2)])))
   \<and> map_option (\<lambda>ord. (totalAmount ord, map quantity (items ord)))
        (getOrderById (snd (createOrder env1 shop ''u1'' (request [ask ''A'' (- 2)]))) ''o1'')
        = Some (- 2000, [- 2])
   \<and> stockOf shop ''A'' = Some 5
   \<and> stockOf (snd (createOrder env1 shop ''u1'' (request [ask ''A'' (- 2)]))) ''A'' = Some 7"
  by (simp add: example_defs eval_defs)

text \<open>
  C9. For \<^verbatim>\<open>page\<close> and \<^verbatim>\<open>limit\<close> of at least 1, \<^verbatim>\<open>getUserOrders\<close> (over the orders of
  the user) and \<^verbatim>\<open>getAllOrders\<close> (over all orders) return a page of the matching orders
  sorted by creation time, newest first: at most \<^verbatim>\<open>limit\<close> orders, starting at offset
  (page - 1) * limit, with \<^verbatim>\<open>total\<close> the number of matching orders and
  \<^verbatim>\<open>totalPages\<close> the ceiling of total / limit (for total 25 and limit 10: 3 pages, and
  page 3 holds 5 orders); the database is returned unchanged.
\<close>

theorem getOrders_pagination:
  assumes "1 \<le> pg" and "1 \<le> lmt"
  shows "(\<exists>matching. mset matching = mset (filter (\<lambda>ord. userId ord = uid) (orders db))
            \<and> sorted_wrt (\<lambda>a b. createdAt b \<le> createdAt a) matching
            \<and> page_of db matching pg lmt (getUserOrders db uid pg lmt))
       \<and> (\<exists>matching. mset matching = mset (orders db)
            \<and> sorted_wrt (\<lambda>a b. createdAt b \<le> createdAt a) matching
            \<and> page_of db matching pg lmt (getAllOrders db pg lmt))"
proof
  let ?rows = "orderBy_createdAt_DESC (filter (\<lambda>ord. userId ord = uid) (orders db))"
  have "mset ?rows = mset (filter (\<lambda>ord. userId ord = uid) (orders db))"
    by (simp add: orderBy_createdAt_DESC_def)
  moreover have "page_of db ?rows pg lmt (getUserOrders db uid pg lmt)"
    unfolding getUserOrders_unfold Let_def
    by (rule page_of_paginate[OF assms sorted_desc])
  ultimately show "\<exists>matching. mset matching = mset (filter (\<lambda>ord. userId ord = uid) (orders db))
            \<and> sorted_wrt (\<lambda>a b. createdAt b \<le> createdAt a) matching
            \<and> page_of db matching pg lmt (getUserOrders db uid pg lmt)"
    using sorted_desc by blast
next
  let ?rows = "orderBy_createdAt_DESC (orders db)"
  have "mset ?rows = mset (orders db)"
    by (simp add: orderBy_createdAt_DESC_def)
  moreover have "page_of db ?rows pg lmt (getAllOrders db pg lmt)"
    unfolding getAllOrders_unfold Let_def
    by (rule page_of_paginate[OF assms sorted_desc])
  ultimately show "\<exists>matching. mset matching = mset (orders db)
            \<and> sorted_wrt (\<lambda>a b. createdAt b \<le> createdAt a) matching
            \<and> page_of db matching pg lmt (getAllOrders db pg lmt)"
    using sorted_desc by blast
qed

theorem getOrders_pagination_witness:
  "(1::int) \<le> 3 \<and> (1::int) \<le> 10
   \<and> length (orders db25) = 25
   \<and> total (fst (getAllOrders db25 3 10)) = 25
   \<and> totalPages (fst (getAllOrders db25 3 10)) = 3
   \<and> length (page_orders (fst (getAllOrders db25 3 10))) = 5
   \<and> snd (getAllOrders db25 3 10) = db25
   \<and> total (fst (getUserOrders db25 ''u1'' 3 10)) = 25
   \<and> totalPages (fst (getUserOrders db25 ''u1'' 3 10)) = 3
   \<and> length (page_orders (fst (getUserOrders db25 ''u1'' 3 10))) = 5
   \<and> snd (getUserOrders db25 ''u1'' 3 10) = db25"
proof -
  have n: "length (orders db25) = 25" by (simp add: db25_def orders25_def)
  have f: "filter (\<lambda>ord. userId ord = ''u1'') (orders db25) = orders db25"
    by (rule filter_True) (auto simp: db25_def orders25_def)
  from getOrders_pagination[of 3 10 "''u1''" db25] obtain m1 m2 where
    m1: "mset m1 = mset (filter (\<lambda>ord. userId ord = ''u1'') (orders db25))"
      "page_of db25 m1 3 10 (getUserOrders db25 ''u1'' 3 10)" and
    m2: "mset m2 = mset (orders db25)" "page_of db25 m2 3 10 (getAllOrders db25 3 10)"
    by auto
  from m1(1) f n have l1: "length m1 = 25" by (metis size_mset)
  from m2(1) n have l2: "length m2 = 25" by (metis size_mset)
  from m1(2) l1 have
    "total (fst (getUserOrders db25 ''u1'' 3 10)) = 25
     \<and> totalPages (fst (getUserOrders db25 ''u1'' 3 10)) = 3
     \<and> length (page_orders (fst (getUserOrders db25 ''u1'' 3 10))) = 5
     \<and> snd (getUserOrders db25 ''u1'' 3 10) = db25"
    unfolding page_of_def by simp
  moreover from m2(2) l2 have
    "total (fst (getAllOrders db25 3 10)) = 25
     \<and> totalPages (fst (getAllOrders db25 3 10)) = 3
     \<and> length (page_orders (fst (getAllOrders db25 3 10))) = 5
     \<and> snd (getAllOrders db25 3 10) = db25"
    unfolding page_of_def by simp
  ultimately show ?thesis using n by simp
qed

text \<open>
  C10. \<^verbatim>\<open>updateOrderStatus\<close> changes nothing but the \<^verbatim>\<open>status\<close> and the
  \<^verbatim>\<open>updatedAt\<close> of the rows of the order table with the given id: products (so every
  stock) and order items are unchanged, every other order row is unchanged, and the order it
  returns has the order number, user, amounts, shipping fields, notes, creation date and items
  it had before.
\<close>

theorem updateOrderStatus_frame:
  "products (snd (updateOrderStatus clock db oid st)) = products db
   \<and> (\<forall>j. stockOf (snd (updateOrderStatus clock db oid st)) j = stockOf db j)
   \<and> orderItems (snd (updateOrderStatus clock db oid st)) = orderItems db
   \<and> length (orders (snd (updateOrderStatus clock db oid st))) = length (orders db)
   \<and> (\<forall>k < length (orders db).
        (order_id (orders db ! k) \<noteq> oid
           \<longrightarrow> orders (snd (updateOrderStatus clock db oid st)) ! k = orders db ! k)
      \<and> (order_id (orders db ! k) = oid
           \<longrightarrow> orders (snd (updateOrderStatus clock db oid st)) ! k
                 = (orders db ! k)\<lparr>status := st, updatedAt := clock\<rparr>))
   \<and> (\<forall>ord. getOrderById db oid = Some ord \<longrightarrow>
        (\<exists>ord'. fst (updateOrderStatus clock db oid st) = Some ord'
           \<and> status ord' = st \<and> updatedAt ord' = clock
           \<and> order_id ord' = order_id ord \<and> orderNumber ord' = orderNumber ord
           \<and> userId ord' = userId ord \<and> totalAmount ord' = totalAmount ord
           \<and> shippingCost ord' = shippingCost ord \<and> taxAmount ord' = taxAmount ord
           \<and> shippingAddress ord' = shippingAddress ord \<and> shippingCity ord' = shippingCity ord
           \<and> shippingPostalCode ord' = shippingPostalCode ord
           \<and> shippingCountry ord' = shippingCountry ord
           \<and> order_notes ord' = order_notes ord \<and> createdAt ord' = createdAt ord
           \<and> items ord' = items ord))"
proof (intro conjI allI impI)
  let ?db' = "snd (updateOrderStatus clock db oid st)"
  show "products ?db' = products db" by (rule updateOrderStatus_products)
  show "stockOf ?db' j = stockOf db j" for j by (rule stockOf_updateOrderStatus)
  show "orderItems ?db' = orderItems db" by (rule updateOrderStatus_orderItems)
  show "length (orders ?db') = length (orders db)" by (simp add: updateOrderStatus_snd)
  show "orders ?db' ! k = orders db ! k"
    if "k < length (orders db)" "order_id (orders db ! k) \<noteq> oid" for k
    using that by (simp add: updateOrderStatus_snd setStatus_def)
  show "orders ?db' ! k = (orders db ! k)\<lparr>status := st, updatedAt := clock\<rparr>"
    if "k < length (orders db)" "order_id (orders db ! k) = oid" for k
    using that by (simp add: updateOrderStatus_snd setStatus_def)
  show "\<exists>ord'. fst (updateOrderStatus clock db oid st) = Some ord'
           \<and> status ord' = st \<and> updatedAt ord' = clock
           \<and> order_id ord' = order_id ord \<and> orderNumber ord' = orderNumber ord
           \<and> userId ord' = userId ord \<and> totalAmount ord' = totalAmount ord
           \<and> shippingCost ord' = shippingCost ord \<and> taxAmount ord' = taxAmount ord
           \<and> shippingAddress ord' = shippingAddress ord \<and> shippingCity ord' = shippingCity ord
           \<and> shippingPostalCode ord' = shippingPostalCode ord
           \<and> shippingCountry ord' = shippingCountry ord
           \<and> order_notes ord' = order_notes ord \<and> createdAt ord' = createdAt ord
           \<and> items ord' = items ord"
    if g: "getOrderById db oid = Some ord" for ord
  proof -
    from g obtain r where r: "find (\<lambda>o'. order_id o' = oid) (orders db) = Some r"
      and ord: "ord = loadItems db r"
      by (auto simp: getOrderById_def split: option.splits)
    from find_Some_mem[OF r] have rid: "order_id r = oid" by simp
    have "find (\<lambda>o'. order_id o' = oid) (orders ?db') = Some (setStatus clock oid st r)"
      by (simp add: updateOrderStatus_find r)
    then have "fst (updateOrderStatus clock db oid st)
                 = Some (loadItems ?db' (setStatus clock oid st r))"
      by (simp add: updateOrderStatus_fst getOrderById_def)
    then show ?thesis
      using rid ord
      by (simp add: loadItems_def Order.defs OrderWithItems.defs setStatus_def
            updateOrderStatus_orderItems)
  qed
qed

theorem updateOrderStatus_frame_witness:
  "snd (updateOrderStatus 150 shop1 ''o1'' DELIVERED)
     = shop1\<lparr>orders := [(orders shop1 ! 0)\<lparr>status := DELIVERED, updatedAt := 150\<rparr>]\<rparr>
   \<and> order_id (orders shop1 ! 0) = ''o1''
   \<and> snd (updateOrderStatus 150 shop1 ''zz'' DELIVERED) = shop1
   \<and> stockOf (snd (updateOrderStatus 150 shop1 ''o1'' DELIVERED)) ''A'' = stockOf shop1 ''A''"
proof -
  have l: "length (orders shop1) = 1" "order_id (orders shop1 ! 0) = ''o1''"
    by (simp_all add: shop1_eq)
  note f1 = updateOrderStatus_frame[of 150 shop1 "''o1''" DELIVERED]
  note f2 = updateOrderStatus_frame[of 150 shop1 "''zz''" DELIVERED]
  from f1 l have a: "orders (snd (updateOrderStatus 150 shop1 ''o1'' DELIVERED))
      = [(orders shop1 ! 0)\<lparr>status := DELIVERED, updatedAt := 150\<rparr>]"
    by (auto simp: list_eq_iff_nth_eq)
  from f2 l have b: "orders (snd (updateOrderStatus 150 shop1 ''zz'' DELIVERED)) = orders shop1"
    by (auto simp: list_eq_iff_nth_eq)
  have u: "is_uuid (snd (updateOrderStatus 150 shop1 i DELIVERED)) = is_uuid shop1" for i
    by (simp add: updateOrderStatus_snd)
  from f1 f2 a b l u show ?thesis by (auto intro: Database.equality)
qed

end
